theory Spec2Isabelle
  imports Complex_Main
begin

section \<open>JavaScript values and platform functions\<close>

text \<open>
  A value thrown by a JavaScript \<^verbatim>\<open>throw\<close> or delivered by a rejected promise.
  \<open>Error msg\<close> is \<^verbatim>\<open>new Error(msg)\<close> (also the errors of the hosting API and of the
  tracked-PR store), \<open>TypeError\<close> is what the \<^verbatim>\<open>URL\<close> constructor raises, and
  \<open>TooManyTries\<close> is the error of the \<^verbatim>\<open>ts-retry\<close> package.
\<close>

datatype js_error = Error string | TypeError string | TooManyTries

text \<open>The completion of a call: a returned value, or a thrown error.\<close>

datatype 'a outcome = Returned 'a | Thrown js_error

text \<open>
  A JavaScript number, as far as this program needs one: not-a-number, the two infinities,
  or a finite value (every finite double is a rational).
\<close>

datatype js_number = NaN | NegInfinity | PosInfinity | Num rat

text \<open>
  A \<^verbatim>\<open>Date\<close> object holds a time value: a whole number of milliseconds since the epoch, or
  NaN (an invalid date), here \<open>None\<close>. \<open>TimeClip\<close> is the range check every \<^verbatim>\<open>Date\<close>
  constructor applies.
\<close>

type_synonym Date = "int option"

definition TimeClip :: "int \<Rightarrow> Date" where
  "TimeClip t = (if \<bar>t\<bar> \<le> 8640000000000000 then Some t else None)"

text \<open>
  The functions of the JavaScript platform and of the \<^verbatim>\<open>ms\<close> package that the sources call.
  Their code is not part of the repository, so they are parameters of the model:
  \<^item> \<open>URL_pathname u\<close> is \<^verbatim>\<open>new URL(u).pathname\<close>, or the error the constructor throws;
  \<^item> \<open>Number s\<close> is \<^verbatim>\<open>Number(s)\<close>;
  \<^item> \<open>Date_parse s\<close> is the time value of \<^verbatim>\<open>new Date(s)\<close> (\<open>None\<close> for an invalid date);
  \<^item> \<open>ms s\<close> is \<^verbatim>\<open>ms(s)\<close>: a thrown error, \<^verbatim>\<open>undefined\<close> (\<open>None\<close>), or a duration
    in whole milliseconds.
\<close>

record Platform =
  URL_pathname :: "string \<Rightarrow> js_error + string"
  Number :: "string \<Rightarrow> js_number"
  Date_parse :: "string \<Rightarrow> int option"
  ms :: "string \<Rightarrow> js_error + int option"

text \<open>
  \<^verbatim>\<open>s.split(c)\<close> for a one-character separator: the pieces between the separators, so a
  string with \<open>n\<close> separators gives \<open>n + 1\<close> pieces and the empty string gives one empty
  piece.
\<close>

fun js_split :: "char \<Rightarrow> string \<Rightarrow> string list" where
  "js_split c [] = [[]]"
| "js_split c (x # xs) =
     (if x = c then [] # js_split c xs
      else (case js_split c xs of
              [] \<Rightarrow> [[x]]
            | s # ss \<Rightarrow> (x # s) # ss))"

text \<open>\<^verbatim>\<open>xs[i]\<close>: the element, or \<^verbatim>\<open>undefined\<close> out of range.\<close>

definition js_index :: "'a list \<Rightarrow> nat \<Rightarrow> 'a option" where
  "js_index xs i = (if i < length xs then Some (xs ! i) else None)"

text \<open>Truthiness of a value that is a string, \<^verbatim>\<open>null\<close> or \<^verbatim>\<open>undefined\<close>.\<close>

definition truthy :: "string option \<Rightarrow> bool" where
  "truthy v = (case v of None \<Rightarrow> False | Some s \<Rightarrow> s \<noteq> [])"

section \<open>github.ts\<close>

subsection \<open>parseGitHubUrl\<close>

record IssueParams =
  owner :: string
  repo :: string
  issue_number :: js_number

text \<open>
  \<^verbatim>\<open>
  const path = new URL(url).pathname.split("/");
  if (path.length !== 5) throw new Error(`[parseGitHubUrl] Invalid url: [${url}]`);
  return { owner: path[1], repo: path[2], issue_number: Number(path[4]) };
  \<close>
\<close>

definition parseGitHubUrl :: "Platform \<Rightarrow> string \<Rightarrow> IssueParams outcome" where
  "parseGitHubUrl pf url =
     (case URL_pathname pf url of
        Inl e \<Rightarrow> Thrown e
      | Inr pathname \<Rightarrow>
          (let path = js_split CHR ''/'' pathname in
           if length path \<noteq> 5
           then Thrown (Error (''[parseGitHubUrl] Invalid url: ['' @ url @ '']''))
           else Returned \<lparr>owner = path ! 1, repo = path ! 2,
                            issue_number = Number pf (path ! 4)\<rparr>))"

subsection \<open>The world outside the program\<close>

text \<open>
  The objects the hosting API returns, with the fields the sources read. A check suite's
  \<^verbatim>\<open>id\<close> and \<^verbatim>\<open>url\<close> are \<open>suite_id\<close> and \<open>suite_url\<close>, a check run's are \<open>run_id\<close>
  and \<open>run_url\<close>; a \<^verbatim>\<open>null\<close> or absent field is \<open>None\<close>.
\<close>

record PullRequestDetails =
  merged :: bool
  closed_at :: "string option"
  author_association :: string
  head_sha :: string

record Review =
  state :: string

record CheckSuite =
  suite_id :: nat
  suite_url :: string

record CheckRun =
  name :: string
  run_id :: nat
  run_url :: string
  status :: string
  conclusion :: "string option"

record IssueEvent =
  created_at :: "string option"
  updated_at :: "string option"
  timestamp :: "string option"
  commented_at :: "string option"

record Requirements =
  mergeTimeout :: string
  requiredApprovalCount :: int

record ReposWatchSettings =
  monitor :: "string list"
  ignore :: "string list"

record ParsedTarget =
  org :: string
  repoTarget :: string

text \<open>
  What the program does to the outside, in the order it does it: the messages it logs
  (each logging call of the sources is one constructor of \<open>log_message\<close>, holding the
  values the message interpolates), the requests it sends to the hosting API, the
  deletions it asks of the tracked-PR store, and the delays it waits.
\<close>

datatype log_level = LogDebug | LogInfo | LogError

datatype log_message =
    NothingToDo
  | ProcessingPullRequest string
  | AlreadyMergedOrClosed string
  | FailedToDelete string js_error
  | RequirementsFor string Requirements Date
  | WillMerge string string Date
  | CiNotPassing string string
  | InsufficientApprovals string
  | ActivityUpUntil string Date
  | CouldNotProcess string js_error
  | ErrorFetchingApprovals js_error
  | ErrorCheckingCi js_error
  | CheckingRunsForSuite nat string string
  | WorkflowState CheckRun
  | WillRetryCi
  | NoRepositoryOwner
  | ErrorGettingOpenPullRequests "string list" js_error

datatype effect =
    Log log_level log_message
  | PullsGet IssueParams
  | ListReviews IssueParams
  | ListSuitesForRef string string string
  | ListForSuite string string nat
  | TimelineEvents IssueParams
  | SearchIssuesAndPullRequests string
  | StoreDelete string
  | PullsMerge IssueParams
  | Wait nat

text \<open>
  The state the program runs in: the URLs the tracked-PR store holds, and the trace of
  effects so far. The length of the trace serves as a clock: what the outside answers may
  depend on it, so the same request can be answered differently later in a run.
\<close>

record World =
  tracked :: "string list"
  trace :: "effect list"

text \<open>
  The \<^verbatim>\<open>Context\<close> object: the configuration, the event payload's repository owner, and
  the outside's answers. An answer of the hosting API is \<open>Inl\<close> an error (the request
  failed) or \<open>Inr\<close> the data; \<open>octokit_pulls_merge\<close> and \<open>sqlite_pullRequest_delete\<close>
  answer \<open>Some\<close> error or \<open>None\<close> for success. \<open>getAllTimelineEvents\<close> is the
  timeline fetcher of \<^verbatim>\<open>handlers/github-events\<close>, and \<open>now\<close> is the clock read by
  \<^verbatim>\<open>new Date()\<close>.
\<close>

record Context =
  platform :: Platform
  now :: "nat \<Rightarrow> int"
  mergeTimeout_collaborator :: string
  mergeTimeout_contributor :: string
  approvalsRequired_collaborator :: int
  approvalsRequired_contributor :: int
  workflowName :: string
  repository_owner_login :: "string option"
  octokit_pulls_get :: "nat \<Rightarrow> IssueParams \<Rightarrow> js_error + PullRequestDetails"
  octokit_pulls_listReviews :: "nat \<Rightarrow> IssueParams \<Rightarrow> js_error + Review list"
  octokit_checks_listSuitesForRef ::
    "nat \<Rightarrow> string \<Rightarrow> string \<Rightarrow> string \<Rightarrow> js_error + CheckSuite list"
  octokit_checks_listForSuite ::
    "nat \<Rightarrow> string \<Rightarrow> string \<Rightarrow> nat \<Rightarrow> js_error + CheckRun list"
  octokit_pulls_merge :: "nat \<Rightarrow> IssueParams \<Rightarrow> js_error option"
  octokit_search :: "nat \<Rightarrow> string \<Rightarrow> js_error + string list"
  getAllTimelineEvents :: "nat \<Rightarrow> IssueParams \<Rightarrow> js_error + IssueEvent list"
  sqlite_pullRequest_delete :: "nat \<Rightarrow> string \<Rightarrow> js_error option"

definition clock :: "World \<Rightarrow> nat" where
  "clock w = length (trace w)"

definition emit :: "effect \<Rightarrow> World \<Rightarrow> World" where
  "emit e w = w\<lparr>trace := trace w @ [e]\<rparr>"

definition logger :: "log_level \<Rightarrow> log_message \<Rightarrow> World \<Rightarrow> World" where
  "logger level message w = emit (Log level message) w"

text \<open>
  \<^verbatim>\<open>await\<close> of a call, followed by the rest of the function: a thrown error ends the
  function, which throws it in turn.
\<close>

definition await ::
  "'a outcome \<times> World \<Rightarrow> ('a \<Rightarrow> World \<Rightarrow> 'b outcome \<times> World) \<Rightarrow> 'b outcome \<times> World" where
  "await r rest =
     (case r of
        (Returned x, w) \<Rightarrow> rest x w
      | (Thrown e, w) \<Rightarrow> (Thrown e, w))"

text \<open>A request to the outside: it is recorded in the trace, and answered.\<close>

definition request :: "effect \<Rightarrow> (nat \<Rightarrow> js_error + 'a) \<Rightarrow> World \<Rightarrow> 'a outcome \<times> World" where
  "request e answer w =
     (case answer (clock w) of
        Inl err \<Rightarrow> (Thrown err, emit e w)
      | Inr x \<Rightarrow> (Returned x, emit e w))"

definition command :: "effect \<Rightarrow> (nat \<Rightarrow> js_error option) \<Rightarrow> World \<Rightarrow> unit outcome \<times> World" where
  "command e answer w =
     (case answer (clock w) of
        Some err \<Rightarrow> (Thrown err, emit e w)
      | None \<Rightarrow> (Returned (), emit e w))"

subsection \<open>getMergeTimeoutAndApprovalRequiredCount\<close>

definition getMergeTimeoutAndApprovalRequiredCount :: "Context \<Rightarrow> string \<Rightarrow> Requirements" where
  "getMergeTimeoutAndApprovalRequiredCount ctx authorAssociation =
     (let timeoutCollaborator =
            \<lparr>mergeTimeout = mergeTimeout_collaborator ctx,
             requiredApprovalCount = approvalsRequired_collaborator ctx\<rparr>;
          timeoutContributor =
            \<lparr>mergeTimeout = mergeTimeout_contributor ctx,
             requiredApprovalCount = approvalsRequired_contributor ctx\<rparr>
      in if authorAssociation \<in> set [''COLLABORATOR'', ''MEMBER'', ''OWNER'']
         then timeoutCollaborator else timeoutContributor)"

subsection \<open>getApprovalCount\<close>

text \<open>
  \<^verbatim>\<open>
  try {
    const { data: reviews } = await octokit.rest.pulls.listReviews({...});
    return reviews.filter((review) => review.state === "APPROVED").length;
  } catch (e) {
    logger.error(`Error fetching reviews' approvals: ${e}`);
    return 0;
  }
  \<close>
\<close>

definition getApprovalCount :: "Context \<Rightarrow> IssueParams \<Rightarrow> World \<Rightarrow> nat outcome \<times> World" where
  "getApprovalCount ctx params w =
     (case request (ListReviews params) (\<lambda>t. octokit_pulls_listReviews ctx t params) w of
        (Returned reviews, w1) \<Rightarrow>
          (Returned (length (filter (\<lambda>review. state review = ''APPROVED'') reviews)), w1)
      | (Thrown e, w1) \<Rightarrow>
          (Returned 0, logger LogError (ErrorFetchingApprovals e) w1))"

subsection \<open>retryAsync (package ts-retry)\<close>

text \<open>
  \<^verbatim>\<open>retryAsync(fn, {until, maxTry, delay})\<close> is imported from the package \<^verbatim>\<open>ts-retry\<close>, whose
  code is not part of the repository; this is the package's behaviour:
  \<^verbatim>\<open>
  async function actualRetry(fn, p) {
    const canRecall = p.currentTry < p.maxTry;
    try {
      const result = await fn();
      if (p.until(result)) return result;
      else if (canRecall) return await recall(fn, p);
      else throw new TooManyTries();
    } catch (err) {
      if (!isTooManyTries(err) && canRecall) return await recall(fn, p);
      else throw err;
    }
  }
  \<close>
  where \<^verbatim>\<open>recall\<close> waits \<open>delay\<close> milliseconds and calls \<^verbatim>\<open>actualRetry\<close> with \<open>currentTry + 1\<close>,
  and \<open>currentTry\<close> starts at 1. It calls \<open>fn\<close>. A result that \<open>until\<close> accepts is
  returned. When \<open>until\<close> rejects the result, or when \<open>fn\<close> throws, and tries are left, it
  waits and tries again. On the last try, a rejected result fails with the package's
  \<open>TooManyTries\<close> error and an error thrown by \<open>fn\<close> is thrown on.

  The retry after a rejected result runs inside \<^verbatim>\<open>try\<close>. When it ends in an error other than
  \<open>TooManyTries\<close>, the \<^verbatim>\<open>catch\<close> clause of the try that started it catches that error, waits
  and retries once more, from the same count of tries; the error of this second retry is
  thrown on, since it is started in the \<^verbatim>\<open>catch\<close> clause. So the number of calls of \<open>fn\<close>
  can exceed \<open>maxTry\<close>. The retry after an error of \<open>fn\<close> is started in the \<^verbatim>\<open>catch\<close> clause
  too, and its error is thrown on. The errors of \<open>fn\<close> itself are those of the requests it
  sends, not the package's \<open>TooManyTries\<close>, and are retried while tries are left.
  \<open>actualRetry\<close> counts the tries that are left after the current one, so
  \<open>maxTry\<close> tries start with \<open>maxTry - 1\<close> tries left.
\<close>

fun actualRetry ::
  "(World \<Rightarrow> 'a outcome \<times> World) \<Rightarrow> ('a \<Rightarrow> World \<Rightarrow> bool \<times> World) \<Rightarrow> nat \<Rightarrow> nat \<Rightarrow> World
     \<Rightarrow> 'a outcome \<times> World" where
  "actualRetry fn until delay 0 w =
     (case fn w of
        (Returned result, w1) \<Rightarrow>
          (case until result w1 of
             (True, w2) \<Rightarrow> (Returned result, w2)
           | (False, w2) \<Rightarrow> (Thrown TooManyTries, w2))
      | (Thrown err, w1) \<Rightarrow> (Thrown err, w1))"
| "actualRetry fn until delay (Suc triesLeft) w =
     (case fn w of
        (Returned result, w1) \<Rightarrow>
          (case until result w1 of
             (True, w2) \<Rightarrow> (Returned result, w2)
           | (False, w2) \<Rightarrow>
               (case actualRetry fn until delay triesLeft (emit (Wait delay) w2) of
                  (Returned later, w3) \<Rightarrow> (Returned later, w3)
                | (Thrown err, w3) \<Rightarrow>
                    if err = TooManyTries then (Thrown err, w3)
                    else actualRetry fn until delay triesLeft (emit (Wait delay) w3)))
      | (Thrown err, w1) \<Rightarrow> actualRetry fn until delay triesLeft (emit (Wait delay) w1))"

definition retryAsync ::
  "(World \<Rightarrow> 'a outcome \<times> World) \<Rightarrow> ('a \<Rightarrow> World \<Rightarrow> bool \<times> World) \<Rightarrow> nat \<Rightarrow> nat \<Rightarrow> World
     \<Rightarrow> 'a outcome \<times> World" where
  "retryAsync fn until maxTry delay w = actualRetry fn until delay (maxTry - 1) w"

subsection \<open>isCiGreen\<close>

text \<open>
  The callback mapped over the check suites logs and sends its request when it is called,
  so all requests of an attempt are sent, in the order of the suites, before any answer
  is looked at.
\<close>

fun listForSuites ::
  "Context \<Rightarrow> IssueParams \<Rightarrow> CheckSuite list \<Rightarrow> World
     \<Rightarrow> (js_error + CheckRun list) list \<times> World" where
  "listForSuites ctx params [] w = ([], w)"
| "listForSuites ctx params (suite # suites) w =
     (let w1 = logger LogDebug
                 (CheckingRunsForSuite (suite_id suite) (suite_url suite) (workflowName ctx)) w;
          answer = octokit_checks_listForSuite ctx (clock w1) (owner params) (repo params)
                     (suite_id suite);
          w2 = emit (ListForSuite (owner params) (repo params) (suite_id suite)) w1
      in case listForSuites ctx params suites w2 of
           (answers, w3) \<Rightarrow> (answer # answers, w3))"

text \<open>
  \<^verbatim>\<open>await Promise.all(promises)\<close>: all the results, or the error of a failed request (here
  the first in the order of the list).
\<close>

fun Promise_all :: "(js_error + 'a) list \<Rightarrow> 'a list outcome" where
  "Promise_all [] = Returned []"
| "Promise_all (Inl e # answers) = Thrown e"
| "Promise_all (Inr x # answers) =
     (case Promise_all answers of
        Returned xs \<Rightarrow> Returned (x # xs)
      | Thrown e \<Rightarrow> Thrown e)"

text \<open>
  \<^verbatim>\<open>filteredResults.find((o) => { logger.debug(...); return o.conclusion === "failure"; })\<close>:
  whether a run is found; every run looked at is logged.
\<close>

fun findFailure :: "CheckRun list \<Rightarrow> World \<Rightarrow> bool \<times> World" where
  "findFailure [] w = (False, w)"
| "findFailure (r # rs) w =
     (let w1 = logger LogDebug (WorkflowState r) w
      in if conclusion r = Some ''failure'' then (True, w1) else findFailure rs w1)"

text \<open>
  \<^verbatim>\<open>
  for (const checkResult of checkResults) {
    const filteredResults = checkResult.filter((o) => o.name !== env.workflowName);
    if (filteredResults.find((o) => o.status !== "completed")) return null;
    else if (filteredResults.find((o) => {...; return o.conclusion === "failure"; }))
      return false;
  }
  return true;
  \<close>
  The result \<^verbatim>\<open>null\<close> is \<open>None\<close>.
\<close>

fun checkResultsLoop :: "Context \<Rightarrow> CheckRun list list \<Rightarrow> World \<Rightarrow> bool option \<times> World" where
  "checkResultsLoop ctx [] w = (Some True, w)"
| "checkResultsLoop ctx (checkResult # checkResults) w =
     (let filteredResults = filter (\<lambda>r. name r \<noteq> workflowName ctx) checkResult
      in if find (\<lambda>r. status r \<noteq> ''completed'') filteredResults \<noteq> None then (None, w)
         else (case findFailure filteredResults w of
                 (True, w1) \<Rightarrow> (Some False, w1)
               | (False, w1) \<Rightarrow> checkResultsLoop ctx checkResults w1))"

text \<open>One attempt: the function handed to \<^verbatim>\<open>retryAsync\<close>.\<close>

definition ciAttempt ::
  "Context \<Rightarrow> IssueParams \<Rightarrow> CheckSuite list \<Rightarrow> World \<Rightarrow> bool option outcome \<times> World" where
  "ciAttempt ctx params checkSuites w =
     (case listForSuites ctx params checkSuites w of
        (answers, w1) \<Rightarrow>
          (case Promise_all answers of
             Thrown e \<Rightarrow> (Thrown e, w1)
           | Returned checkResults \<Rightarrow>
               (case checkResultsLoop ctx checkResults w1 of
                  (result, w2) \<Rightarrow> (Returned result, w2))))"

text \<open>
  \<^verbatim>\<open>
  until(lastResult) {
    if (lastResult === null) logger.info("Not all CI runs were complete, will retry...");
    return lastResult !== null;
  }
  \<close>
\<close>

definition ciUntil :: "bool option \<Rightarrow> World \<Rightarrow> bool \<times> World" where
  "ciUntil lastResult w =
     (if lastResult = None then (False, logger LogInfo WillRetryCi w) else (True, w))"

text \<open>
  \<^verbatim>\<open>
  try {
    const { data: checkSuites } = await octokit.rest.checks.listSuitesForRef({...});
    return retryAsync(async () => {...}, { until(lastResult) {...}, maxTry: 100, delay: 60000 });
  } catch (e) {
    logger.error(`Error checking CI status: ${e}`);
    return false;
  }
  \<close>
  The request for the check suites is awaited inside \<^verbatim>\<open>try\<close>, so its failure reaches the
  \<^verbatim>\<open>catch\<close> clause. The promise of \<^verbatim>\<open>retryAsync\<close> is returned without \<^verbatim>\<open>await\<close>: it
  settles after the \<^verbatim>\<open>try\<close> statement has been left, so its rejection is not caught there
  and is the rejection of \<^verbatim>\<open>isCiGreen\<close> itself.
\<close>

definition isCiGreen ::
  "Context \<Rightarrow> string \<Rightarrow> IssueParams \<Rightarrow> World \<Rightarrow> bool option outcome \<times> World" where
  "isCiGreen ctx sha params w =
     (case request (ListSuitesForRef (owner params) (repo params) sha)
             (\<lambda>t. octokit_checks_listSuitesForRef ctx t (owner params) (repo params) sha) w of
        (Thrown e, w1) \<Rightarrow> (Returned (Some False), logger LogError (ErrorCheckingCi e) w1)
      | (Returned checkSuites, w1) \<Rightarrow>
          retryAsync (ciAttempt ctx params checkSuites) ciUntil 100 60000 w1)"

subsection \<open>parseTarget and getOpenPullRequests\<close>

text \<open>
  \<^verbatim>\<open>
  if (!payload.repository.owner) { logger.error(errorMessage); throw new Error(errorMessage); }
  const owner = payload.repository.owner.login;
  const [orgParsed, repoParsed] = target.split("/");
  let repoTarget;
  if (repoParsed) {
    if (orgParsed !== owner) return null;
    repoTarget = repoParsed;
  } else {
    repoTarget = orgParsed;
  }
  return { org: owner, repo: repoTarget };
  \<close>
  The result \<^verbatim>\<open>null\<close> is \<open>None\<close>; the field \<^verbatim>\<open>repo\<close> of the result is \<open>repoTarget\<close>.
  A split yields at least one piece, so \<open>orgParsed\<close> is the first piece; \<open>repoParsed\<close> is
  the second piece, or \<^verbatim>\<open>undefined\<close> when there is none.
\<close>

definition parseTarget :: "Context \<Rightarrow> string \<Rightarrow> World \<Rightarrow> ParsedTarget option outcome \<times> World" where
  "parseTarget ctx target w =
     (case repository_owner_login ctx of
        None \<Rightarrow>
          (Thrown (Error ''No repository owner has been found, the target cannot be parsed.''),
           logger LogError NoRepositoryOwner w)
      | Some login \<Rightarrow>
          (let parts = js_split CHR ''/'' target;
               orgParsed = hd parts;
               repoParsed = js_index parts 1
           in if truthy repoParsed
              then (if orgParsed \<noteq> login then (Returned None, w)
                    else (Returned (Some \<lparr>org = login, repoTarget = parts ! 1\<rparr>), w))
              else (Returned (Some \<lparr>org = login, repoTarget = orgParsed\<rparr>), w)))"


text \<open>
  The two \<^verbatim>\<open>reduce\<close> calls that build the filter differ only in the sign before the term
  (none for the monitor list, \<^verbatim>\<open>-\<close> for the ignore list):
  \<^verbatim>\<open>
  (acc, curr) => {
    const parsedTarget = parseTarget(context, curr);
    if (parsedTarget) {
      return [...acc, parsedTarget.repo ? `repo:${parsedTarget.org}/${parsedTarget.repo}`
                                        : `org:${parsedTarget.org}`];
    }
    return acc;
  }
  \<close>
\<close>

definition filterTerm :: "string \<Rightarrow> ParsedTarget \<Rightarrow> string" where
  "filterTerm sign parsedTarget =
     (if repoTarget parsedTarget \<noteq> []
      then sign @ ''repo:'' @ org parsedTarget @ ''/'' @ repoTarget parsedTarget
      else sign @ ''org:'' @ org parsedTarget)"

fun reduceTargets ::
  "Context \<Rightarrow> string \<Rightarrow> string list \<Rightarrow> string list \<Rightarrow> World \<Rightarrow> string list outcome \<times> World" where
  "reduceTargets ctx sign acc [] w = (Returned acc, w)"
| "reduceTargets ctx sign acc (target # targets) w =
     (case parseTarget ctx target w of
        (Thrown e, w1) \<Rightarrow> (Thrown e, w1)
      | (Returned None, w1) \<Rightarrow> reduceTargets ctx sign acc targets w1
      | (Returned (Some parsedTarget), w1) \<Rightarrow>
          reduceTargets ctx sign (acc @ [filterTerm sign parsedTarget]) targets w1)"

text \<open>
  \<^verbatim>\<open>
  const monitor = [...targets.monitor];
  if (!monitor.length) monitor.push(`org: ${context.payload.repository.owner?.login}`);
  const filter = [...monitor.reduce(...), ...targets.ignore.reduce(...)];
  try {
    const data = await octokit.paginate(octokit.rest.search.issuesAndPullRequests,
      { q: `is:pr is:open draft:false ${filter.join(" ")}` });
    return data.flat();
  } catch (e) {
    logger.error(`Error getting open pull-requests for targets: [${filter.join(", ")}]. ${e}`);
    throw e;
  }
  \<close>
  The pull requests found are represented by their URLs.
\<close>

definition defaultMonitor :: "Context \<Rightarrow> string list \<Rightarrow> string list" where
  "defaultMonitor ctx monitor0 =
     (if monitor0 = []
      then [''org: '' @ (case repository_owner_login ctx of
                           None \<Rightarrow> ''undefined''
                         | Some login \<Rightarrow> login)]
      else monitor0)"

definition searchFilter ::
  "Context \<Rightarrow> ReposWatchSettings \<Rightarrow> World \<Rightarrow> string list outcome \<times> World" where
  "searchFilter ctx targets w =
     await (reduceTargets ctx [] [] (defaultMonitor ctx (monitor targets)) w) (\<lambda>monitored w1.
     await (reduceTargets ctx ''-'' [] (ignore targets) w1) (\<lambda>ignored w2.
       (Returned (monitored @ ignored), w2)))"


section \<open>update-pull-requests.ts\<close>

subsection \<open>The tracked-PR store\<close>

text \<open>
  Modelled from the spec: \<^verbatim>\<open>context.adapters.sqlite.pullRequest.delete(url)\<close>, whose code
  is not among the sources. The spec gives the store the operation "delete(url) removing a
  URL from the watch list"; the sources catch an error of it. So a deletion that succeeds
  removes the URL from the tracked list, and one that fails throws and leaves the list as
  it was.
\<close>

definition pullRequest_delete :: "Context \<Rightarrow> string \<Rightarrow> World \<Rightarrow> unit outcome \<times> World" where
  "pullRequest_delete ctx url w =
     (case sqlite_pullRequest_delete ctx (clock w) url of
        Some err \<Rightarrow> (Thrown err, emit (StoreDelete url) w)
      | None \<Rightarrow>
          (Returned (), emit (StoreDelete url) (w\<lparr>tracked := removeAll url (tracked w)\<rparr>)))"

text \<open>
  Modelled from the spec: \<^verbatim>\<open>getRepositories(context.config.watch)\<close>, imported from
  \<^verbatim>\<open>./github\<close> but not defined among the sources. The spec has the orchestrator read the
  full tracked list of the store.
\<close>

definition getRepositories :: "World \<Rightarrow> string list" where
  "getRepositories w = tracked w"

subsection \<open>getPullRequestDetails, mergePullRequest, isPastOffset\<close>

text \<open>
  These are the functions that \<^verbatim>\<open>update-pull-requests.ts\<close> defines for itself and calls.
  \<^verbatim>\<open>github.ts\<close> exports functions of the names \<^verbatim>\<open>getPullRequestDetails\<close> and
  \<^verbatim>\<open>mergePullRequest\<close> too (the latter only sends the merge request); the orchestrator
  does not import them.
\<close>

definition getPullRequestDetails ::
  "Context \<Rightarrow> IssueParams \<Rightarrow> World \<Rightarrow> PullRequestDetails outcome \<times> World" where
  "getPullRequestDetails ctx params w =
     request (PullsGet params) (\<lambda>t. octokit_pulls_get ctx t params) w"

text \<open>
  \<^verbatim>\<open>
  await context.adapters.sqlite.pullRequest.delete(pullRequest);
  await context.octokit.pulls.merge({ owner, repo, pull_number: pullNumber });
  \<close>
\<close>

definition mergePullRequest ::
  "Context \<Rightarrow> string \<Rightarrow> IssueParams \<Rightarrow> World \<Rightarrow> unit outcome \<times> World" where
  "mergePullRequest ctx pullRequest params w =
     await (pullRequest_delete ctx pullRequest w) (\<lambda>_ w1.
       command (PullsMerge params) (\<lambda>t. octokit_pulls_merge ctx t params) w1)"

text \<open>
  \<^verbatim>\<open>
  const currentDate = new Date();
  const offsetTime = ms(offset);
  if (offsetTime === undefined) throw new Error("Invalid offset format");
  const futureDate = new Date(lastActivityDate.getTime() + offsetTime);
  return currentDate > futureDate;
  \<close>
  A comparison with an invalid date is false.
\<close>

definition isPastOffset :: "Context \<Rightarrow> Date \<Rightarrow> string \<Rightarrow> World \<Rightarrow> bool outcome \<times> World" where
  "isPastOffset ctx lastActivityDate offset w =
     (let currentDate = now ctx (clock w)
      in case ms (platform ctx) offset of
           Inl e \<Rightarrow> (Thrown e, w)
         | Inr None \<Rightarrow> (Thrown (Error ''Invalid offset format''), w)
         | Inr (Some offsetTime) \<Rightarrow>
             (let futureDate = (case lastActivityDate of
                                  None \<Rightarrow> None
                                | Some t \<Rightarrow> TimeClip (t + offsetTime))
              in (Returned (case futureDate of
                              None \<Rightarrow> False
                            | Some f \<Rightarrow> currentDate > f), w)))"

subsection \<open>The last activity of a pull request\<close>

text \<open>
  \<^verbatim>\<open>
  const eventDates: Date[] = activity
    .map((event) => {
      const e = event as IssueEvent;
      return new Date(e.created_at || e.updated_at || e.timestamp || e.commented_at || "");
    })
    .filter((date) => !isNaN(date.getTime()));
  const lastActivityDate = new Date(Math.max(...eventDates.map((date) => date.getTime())));
  \<close>
  \<open>firstTruthy\<close> is the chain of \<^verbatim>\<open>||\<close>; \<open>new_Date\<close> is \<^verbatim>\<open>new Date(string)\<close>;
  \<open>Math_max\<close> of no numbers is \<^verbatim>\<open>-Infinity\<close>, here \<open>None\<close>, and \<^verbatim>\<open>new Date(-Infinity)\<close>
  is an invalid date.
\<close>

fun firstTruthy :: "string option list \<Rightarrow> string" where
  "firstTruthy [] = []"
| "firstTruthy (v # vs) = (if truthy v then (case v of Some s \<Rightarrow> s | None \<Rightarrow> []) else firstTruthy vs)"

definition eventTimestamp :: "IssueEvent \<Rightarrow> string" where
  "eventTimestamp e = firstTruthy [created_at e, updated_at e, timestamp e, commented_at e]"

definition new_Date :: "Platform \<Rightarrow> string \<Rightarrow> Date" where
  "new_Date pf s = (case Date_parse pf s of None \<Rightarrow> None | Some t \<Rightarrow> TimeClip t)"

definition Math_max :: "int list \<Rightarrow> int option" where
  "Math_max xs = (case xs of [] \<Rightarrow> None | x # rest \<Rightarrow> Some (fold max rest x))"

definition eventDates :: "Platform \<Rightarrow> IssueEvent list \<Rightarrow> int list" where
  "eventDates pf activity = List.map_filter (\<lambda>event. new_Date pf (eventTimestamp event)) activity"

definition lastActivityDate :: "Platform \<Rightarrow> IssueEvent list \<Rightarrow> Date" where
  "lastActivityDate pf activity =
     (case Math_max (eventDates pf activity) of None \<Rightarrow> None | Some t \<Rightarrow> TimeClip t)"

subsection \<open>updatePullRequests\<close>

text \<open>
  Lines 35 to 41, the pull request that is merged or closed:
  \<^verbatim>\<open>
  context.logger.info(`The pull request ${pullRequest} is already merged or closed, ...`);
  try {
    await context.adapters.sqlite.pullRequest.delete(pullRequest);
  } catch (e) {
    context.logger.error(`Failed to delete pull-request ${pullRequest}: ${e}`);
  }
  continue;
  \<close>
\<close>

definition removeClosed :: "Context \<Rightarrow> string \<Rightarrow> World \<Rightarrow> World" where
  "removeClosed ctx pullRequest w =
     (case pullRequest_delete ctx pullRequest
             (logger LogInfo (AlreadyMergedOrClosed pullRequest) w) of
        (Returned _, w1) \<Rightarrow> w1
      | (Thrown e, w1) \<Rightarrow> logger LogError (FailedToDelete pullRequest e) w1)"

text \<open>
  Lines 58 to 67, the pull request that is past its due date:
  \<^verbatim>\<open>
  if ((await getApprovalCount(context, gitHubUrl)) >= requirements.requiredApprovalCount) {
    if (await isCiGreen(context, pullRequestDetails.head.sha, gitHubUrl)) {
      context.logger.info(`Pull-request ${pullRequest} is past its due date (...), will merge.`);
      await mergePullRequest(context, pullRequest, gitHubUrl);
    } else {
      context.logger.info(`Pull-request ${pullRequest} (sha: ...) does not pass all CI tests, ...`);
    }
  } else {
    context.logger.info(`Pull-request ${pullRequest} does not have sufficient reviewer approvals ...`);
  }
  \<close>
  Only \<^verbatim>\<open>true\<close> is truthy among the results of \<open>isCiGreen\<close>.
\<close>

definition mergeWhenDue ::
  "Context \<Rightarrow> string \<Rightarrow> IssueParams \<Rightarrow> PullRequestDetails \<Rightarrow> Requirements \<Rightarrow> Date \<Rightarrow> World
     \<Rightarrow> unit outcome \<times> World" where
  "mergeWhenDue ctx pullRequest gitHubUrl pullRequestDetails requirements lastActivity w =
     await (getApprovalCount ctx gitHubUrl w) (\<lambda>approvals w1.
       if int approvals \<ge> requiredApprovalCount requirements
       then await (isCiGreen ctx (head_sha pullRequestDetails) gitHubUrl w1) (\<lambda>green w2.
              if green = Some True
              then mergePullRequest ctx pullRequest gitHubUrl
                     (logger LogInfo
                        (WillMerge pullRequest (mergeTimeout requirements) lastActivity) w2)
              else (Returned (),
                    logger LogInfo (CiNotPassing pullRequest (head_sha pullRequestDetails)) w2))
       else (Returned (), logger LogInfo (InsufficientApprovals pullRequest) w1))"

text \<open>
  Lines 43 to 70, the pull request that is open: the last activity, the requirements, and
  the test \<^verbatim>\<open>isNaN(lastActivityDate.getTime()) || isPastOffset(...)\<close>, whose second operand is
  evaluated only when the date is valid.
\<close>

definition checkOpen ::
  "Context \<Rightarrow> string \<Rightarrow> IssueParams \<Rightarrow> PullRequestDetails \<Rightarrow> World \<Rightarrow> unit outcome \<times> World" where
  "checkOpen ctx pullRequest gitHubUrl pullRequestDetails w =
     await (parseGitHubUrl (platform ctx) pullRequest, w) (\<lambda>params w1.
     await (request (TimelineEvents params) (\<lambda>t. getAllTimelineEvents ctx t params) w1)
       (\<lambda>activity w2.
         (let lastActivity = lastActivityDate (platform ctx) activity;
              requirements = getMergeTimeoutAndApprovalRequiredCount ctx
                               (author_association pullRequestDetails);
              w3 = logger LogDebug
                     (RequirementsFor (author_association pullRequestDetails) requirements
                        lastActivity) w2
          in await (if lastActivity = None then (Returned True, w3)
                    else isPastOffset ctx lastActivity (mergeTimeout requirements) w3)
               (\<lambda>due w4.
                  if due
                  then mergeWhenDue ctx pullRequest gitHubUrl pullRequestDetails requirements
                         lastActivity w4
                  else (Returned (),
                        logger LogInfo (ActivityUpUntil pullRequest lastActivity) w4)))))"

text \<open>Lines 31 to 70, the body of the \<^verbatim>\<open>try\<close> statement.\<close>

definition tryBlock :: "Context \<Rightarrow> string \<Rightarrow> World \<Rightarrow> unit outcome \<times> World" where
  "tryBlock ctx pullRequest w =
     await (parseGitHubUrl (platform ctx) pullRequest, w) (\<lambda>gitHubUrl w1.
     await (getPullRequestDetails ctx gitHubUrl w1) (\<lambda>pullRequestDetails w2.
       (let w3 = logger LogDebug (ProcessingPullRequest pullRequest) w2
        in if merged pullRequestDetails \<or> truthy (closed_at pullRequestDetails)
           then (Returned (), removeClosed ctx pullRequest w3)
           else checkOpen ctx pullRequest gitHubUrl pullRequestDetails w3)))"

text \<open>
  One turn of the loop over the tracked pull requests: the \<^verbatim>\<open>try\<close> statement with its
  \<^verbatim>\<open>catch\<close> clause, which logs whatever was thrown.
\<close>

definition processPullRequest :: "Context \<Rightarrow> string \<Rightarrow> World \<Rightarrow> World" where
  "processPullRequest ctx pullRequest w =
     (case tryBlock ctx pullRequest w of
        (Returned _, w1) \<Rightarrow> w1
      | (Thrown e, w1) \<Rightarrow> logger LogError (CouldNotProcess pullRequest e) w1)"

fun forPullRequests :: "Context \<Rightarrow> string list \<Rightarrow> World \<Rightarrow> World" where
  "forPullRequests ctx [] w = w"
| "forPullRequests ctx (pullRequest # pullRequests) w =
     forPullRequests ctx pullRequests (processPullRequest ctx pullRequest w)"

definition updatePullRequests :: "Context \<Rightarrow> World \<Rightarrow> World" where
  "updatePullRequests ctx w =
     (let pullRequests = getRepositories w
      in if pullRequests = [] then logger LogInfo NothingToDo w
         else forPullRequests ctx pullRequests w)"

section \<open>Vocabulary of the properties\<close>

text \<open>
  The words of the properties of an attempt: a suite's runs, leaving out the runs named
  as the automation's own workflow, have a run that is not completed, or have a run whose
  conclusion is failure.
\<close>

definition hasPending :: "Context \<Rightarrow> CheckRun list \<Rightarrow> bool" where
  "hasPending ctx runs =
     list_ex (\<lambda>r. name r \<noteq> workflowName ctx \<and> status r \<noteq> ''completed'') runs"

definition hasFailure :: "Context \<Rightarrow> CheckRun list \<Rightarrow> bool" where
  "hasFailure ctx runs =
     list_ex (\<lambda>r. name r \<noteq> workflowName ctx \<and> conclusion r = Some ''failure'') runs"

text \<open>
  The effects added to the trace between two worlds, and the relation "the later world
  comes from the earlier one by adding effects that all satisfy \<open>P\<close>, the tracked list
  unchanged". An effect is \<open>quiet\<close> when it is a log entry or a request that only reads:
  not a deletion in the store, not a merge, not a wait.
\<close>

definition added :: "World \<Rightarrow> World \<Rightarrow> effect list" where
  "added w w' = drop (length (trace w)) (trace w')"

definition extends :: "(effect \<Rightarrow> bool) \<Rightarrow> World \<Rightarrow> World \<Rightarrow> bool" where
  "extends P w w' =
     (tracked w' = tracked w \<and> trace w' = trace w @ added w w' \<and> list_all P (added w w'))"

definition quiet :: "effect \<Rightarrow> bool" where
  "quiet e =
     (case e of
        StoreDelete url \<Rightarrow> False
      | PullsMerge params \<Rightarrow> False
      | Wait delay \<Rightarrow> False
      | _ \<Rightarrow> True)"

text \<open>
  The world in which attempt \<open>k + 1\<close> of the CI gate starts when the \<open>k\<close> attempts before
  it were indeterminate: each of them is followed by the log entry of \<open>ciUntil\<close> and the
  wait of 60000 milliseconds.
\<close>

fun retryWorld :: "Context \<Rightarrow> IssueParams \<Rightarrow> CheckSuite list \<Rightarrow> nat \<Rightarrow> World \<Rightarrow> World" where
  "retryWorld ctx params checkSuites 0 w = w"
| "retryWorld ctx params checkSuites (Suc k) w =
     emit (Wait 60000)
       (logger LogInfo WillRetryCi
          (snd (ciAttempt ctx params checkSuites (retryWorld ctx params checkSuites k w))))"

text \<open>
  World \<open>w'\<close> comes from \<open>w\<close> by polling: the tracked list is the same, and the effects
  added are log entries, reading requests and waits of \<open>delay\<close> milliseconds, at most \<open>b\<close>
  of these.
\<close>

definition polled :: "nat \<Rightarrow> nat \<Rightarrow> World \<Rightarrow> World \<Rightarrow> bool" where
  "polled delay b w w' =
     (tracked w' = tracked w \<and>
      (\<exists>es. trace w' = trace w @ es \<and> list_all (\<lambda>e. quiet e \<or> e = Wait delay) es \<and>
            length (filter (\<lambda>e. e = Wait delay) es) \<le> b))"


text \<open>An effect that is a merge request.\<close>

definition isMerge :: "effect \<Rightarrow> bool" where
  "isMerge e = (case e of PullsMerge params \<Rightarrow> True | _ \<Rightarrow> False)"

text \<open>
  The fields of a timeline event that may hold a timestamp, as far as they are present.
\<close>

definition timestampFields :: "IssueEvent \<Rightarrow> string list" where
  "timestampFields e =
     concat (map (\<lambda>v. case v of None \<Rightarrow> [] | Some s \<Rightarrow> [s])
               [created_at e, updated_at e, timestamp e, commented_at e])"

section \<open>Examples: a platform, contexts and worlds\<close>

text \<open>
  A small stand-in for the platform functions, used only to run the model on concrete
  inputs: the path of \<^verbatim>\<open>scheme://host/...\<close> is what follows the host, decimal digit strings
  are numbers, a date is a decimal count of milliseconds, and a duration is a decimal count
  of milliseconds.
\<close>

fun digits_value :: "nat \<Rightarrow> string \<Rightarrow> nat option" where
  "digits_value acc [] = Some acc"
| "digits_value acc (c # cs) =
     (if c \<in> set ''0123456789''
      then digits_value (10 * acc + (of_char c - 48)) cs
      else None)"

definition decimal :: "string \<Rightarrow> nat option" where
  "decimal s = (if s = [] then None else digits_value 0 s)"

definition demo_pathname :: "string \<Rightarrow> js_error + string" where
  "demo_pathname u =
     (case js_split CHR ''/'' u of
        scheme # blank # host # rest \<Rightarrow>
          if blank = [] \<and> scheme \<noteq> [] \<and> last scheme = CHR '':'' \<and> host \<noteq> []
          then Inr (concat (map (\<lambda>s. CHR ''/'' # s) (if rest = [] then [[]] else rest)))
          else Inl (TypeError ''Invalid URL'')
      | _ \<Rightarrow> Inl (TypeError ''Invalid URL''))"

definition demo_platform :: Platform where
  "demo_platform =
     \<lparr>URL_pathname = demo_pathname,
      Number = (\<lambda>s. case decimal s of None \<Rightarrow> NaN | Some n \<Rightarrow> Num (of_nat n)),
      Date_parse = (\<lambda>s. map_option int (decimal s)),
      ms = (\<lambda>s. if s = [] then Inl (Error ''val is not a non-empty string'')
                 else Inr (map_option int (decimal s)))\<rparr>"

text \<open>
  A context for the examples: the repository owner is \<open>acme\<close>; the pull request is open, by
  a member, last active at time 5000; members need two approvals and wait 1000
  milliseconds; two of three reviews approve; the one check suite has a successful run and
  the automation's own run, still in progress; every request succeeds.
\<close>

definition demo_details :: PullRequestDetails where
  "demo_details =
     \<lparr>merged = False, closed_at = None, author_association = ''MEMBER'', head_sha = ''abc123''\<rparr>"

definition demo_context :: Context where
  "demo_context =
     \<lparr>platform = demo_platform,
      now = (\<lambda>t. 1000000),
      mergeTimeout_collaborator = ''1000'',
      mergeTimeout_contributor = ''2000'',
      approvalsRequired_collaborator = 2,
      approvalsRequired_contributor = 3,
      workflowName = ''Auto Merge'',
      repository_owner_login = Some ''acme'',
      octokit_pulls_get = (\<lambda>t params. Inr demo_details),
      octokit_pulls_listReviews = (\<lambda>t params.
        Inr [\<lparr>state = ''APPROVED''\<rparr>, \<lparr>state = ''CHANGES_REQUESTED''\<rparr>, \<lparr>state = ''APPROVED''\<rparr>]),
      octokit_checks_listSuitesForRef = (\<lambda>t own rep ref.
        Inr [\<lparr>suite_id = 1, suite_url = ''suites/1''\<rparr>]),
      octokit_checks_listForSuite = (\<lambda>t own rep suite.
        Inr [\<lparr>name = ''build'', run_id = 7, run_url = ''runs/7'', status = ''completed'',
                conclusion = Some ''success''\<rparr>,
             \<lparr>name = ''Auto Merge'', run_id = 8, run_url = ''runs/8'', status = ''in_progress'',
                conclusion = None\<rparr>]),
      octokit_pulls_merge = (\<lambda>t params. None),
      octokit_search = (\<lambda>t q. Inr []),
      getAllTimelineEvents = (\<lambda>t params.
        Inr [\<lparr>created_at = Some ''5000'', updated_at = None, timestamp = None,
                commented_at = None\<rparr>]),
      sqlite_pullRequest_delete = (\<lambda>t url. None)\<rparr>"

definition demo_url :: string where
  "demo_url = ''https://github.com/acme/widgets/pull/42''"

definition demo_params :: IssueParams where
  "demo_params = \<lparr>owner = ''acme'', repo = ''widgets'', issue_number = Num 42\<rparr>"

definition demo_world :: World where
  "demo_world = \<lparr>tracked = [demo_url], trace = []\<rparr>"

text \<open>
  Contexts for the examples of the CI gate: the commit has the check suites 1 to \<open>n\<close>, and
  \<open>runs t suite\<close> answers the request for the runs of a suite sent at time \<open>t\<close>.
\<close>

definition demo_run :: "string \<Rightarrow> string \<Rightarrow> string option \<Rightarrow> CheckRun" where
  "demo_run n s c = \<lparr>name = n, run_id = 0, run_url = [], status = s, conclusion = c\<rparr>"

definition demo_suites :: "nat \<Rightarrow> CheckSuite list" where
  "demo_suites n = map (\<lambda>i. \<lparr>suite_id = i, suite_url = []\<rparr>) [1..<Suc n]"

definition demo_ci_context :: "nat \<Rightarrow> (nat \<Rightarrow> nat \<Rightarrow> js_error + CheckRun list) \<Rightarrow> Context" where
  "demo_ci_context n runs =
     demo_context
       \<lparr>octokit_checks_listSuitesForRef := (\<lambda>t own rep ref. Inr (demo_suites n)),
        octokit_checks_listForSuite := (\<lambda>t own rep suite. runs t suite)\<rparr>"

text \<open>Suite 1 has a failed run, suite 2 a run in progress.\<close>

definition red_then_pending :: "nat \<Rightarrow> nat \<Rightarrow> js_error + CheckRun list" where
  "red_then_pending t suite =
     (if suite = 1 then Inr [demo_run ''build'' ''completed'' (Some ''failure'')]
      else Inr [demo_run ''test'' ''in_progress'' None])"

text \<open>
  Suite 1 has a successful run and the automation's own run, in progress; suite 2 has a
  run in progress; suite 3 has a failed run.
\<close>

definition green_pending_red :: "nat \<Rightarrow> nat \<Rightarrow> js_error + CheckRun list" where
  "green_pending_red t suite =
     (if suite = 1 then Inr [demo_run ''build'' ''completed'' (Some ''success''),
                             demo_run ''Auto Merge'' ''in_progress'' None]
      else if suite = 2 then Inr [demo_run ''test'' ''in_progress'' None]
      else Inr [demo_run ''lint'' ''completed'' (Some ''failure'')])"

text \<open>Every suite has a successful run and the automation's own run, in progress.\<close>

definition green_with_self :: "nat \<Rightarrow> nat \<Rightarrow> js_error + CheckRun list" where
  "green_with_self t suite =
     Inr [demo_run ''build'' ''completed'' (Some ''success''),
          demo_run ''Auto Merge'' ''in_progress'' None]"






text \<open>The store fails to delete; and the merge request fails.\<close>

definition failing_store_context :: Context where
  "failing_store_context =
     demo_context \<lparr>sqlite_pullRequest_delete := (\<lambda>t url. Some (Error ''SQLITE_BUSY''))\<rparr>"

definition failing_merge_context :: Context where
  "failing_merge_context =
     demo_context \<lparr>octokit_pulls_merge := (\<lambda>t params. Some (Error ''405 Not Allowed''))\<rparr>"

text \<open>
  The example context with given answers of the store's deletion and of the merge request;
  and the worlds its checks of the example pull request lead through: \<open>demo_at k\<close> is the
  world after the first \<open>k\<close> effects of \<open>demo_checks\<close>.
\<close>

definition demo_outcome_context ::
  "(nat \<Rightarrow> string \<Rightarrow> js_error option) \<Rightarrow> (nat \<Rightarrow> IssueParams \<Rightarrow> js_error option) \<Rightarrow> Context" where
  "demo_outcome_context deletion merging =
     demo_context \<lparr>octokit_pulls_merge := merging, sqlite_pullRequest_delete := deletion\<rparr>"

definition demo_requirements :: Requirements where
  "demo_requirements = \<lparr>mergeTimeout = ''1000'', requiredApprovalCount = 2\<rparr>"

definition demo_checks :: "effect list" where
  "demo_checks =
     [PullsGet demo_params,
      Log LogDebug (ProcessingPullRequest demo_url),
      TimelineEvents demo_params,
      Log LogDebug (RequirementsFor ''MEMBER'' demo_requirements (Some 5000)),
      ListReviews demo_params,
      ListSuitesForRef ''acme'' ''widgets'' ''abc123'',
      Log LogDebug (CheckingRunsForSuite 1 ''suites/1'' ''Auto Merge''),
      ListForSuite ''acme'' ''widgets'' 1,
      Log LogDebug
        (WorkflowState
           \<lparr>name = ''build'', run_id = 7, run_url = ''runs/7'', status = ''completed'',
            conclusion = Some ''success''\<rparr>)]"

definition demo_at :: "nat \<Rightarrow> World" where
  "demo_at k = \<lparr>tracked = [demo_url], trace = take k demo_checks\<rparr>"

definition demo_activity :: "IssueEvent list" where
  "demo_activity =
     [\<lparr>created_at = Some ''5000'', updated_at = None, timestamp = None, commented_at = None\<rparr>]"

text \<open>The pull request is reported merged; or closed without a merge.\<close>

definition merged_context :: Context where
  "merged_context =
     demo_context
       \<lparr>octokit_pulls_get := (\<lambda>t params.
          Inr \<lparr>merged = True, closed_at = Some ''2024-05-01T00:00:00Z'',
               author_association = ''MEMBER'', head_sha = ''abc123''\<rparr>)\<rparr>"

definition closed_context :: Context where
  "closed_context =
     demo_context
       \<lparr>octokit_pulls_get := (\<lambda>t params.
          Inr \<lparr>merged = False, closed_at = Some ''2024-05-01T00:00:00Z'',
               author_association = ''MEMBER'', head_sha = ''abc123''\<rparr>),
        sqlite_pullRequest_delete := (\<lambda>t url. Some (Error ''SQLITE_BUSY''))\<rparr>"

text \<open>The timeline holds two events, neither with a date that parses.\<close>

definition undated_activity :: "IssueEvent list" where
  "undated_activity =
     [\<lparr>created_at = None, updated_at = None, timestamp = None, commented_at = None\<rparr>,
      \<lparr>created_at = Some ''yesterday'', updated_at = Some ''soon'', timestamp = None,
       commented_at = None\<rparr>]"

definition undated_context :: Context where
  "undated_context =
     demo_context \<lparr>getAllTimelineEvents := (\<lambda>t params. Inr undated_activity)\<rparr>"

section \<open>Properties\<close>

lemma js_split_nonempty: "js_split c s \<noteq> []"
  by (induction s) (auto split: list.splits)

text \<open>
  C8. A URL whose path does not split into exactly five segments is refused with an error
  whose message contains the URL; a URL whose path splits into exactly five segments
  yields segment 1 as owner, segment 2 as repository and the numeric value of segment 4 as
  issue number.
\<close>

theorem parseGitHubUrl_segments:
  "URL_pathname pf url = Inr pathname \<Longrightarrow>
   (length (js_split CHR ''/'' pathname) \<noteq> 5 \<longrightarrow>
      (\<exists>before after. parseGitHubUrl pf url = Thrown (Error (before @ url @ after)))) \<and>
   (length (js_split CHR ''/'' pathname) = 5 \<longrightarrow>
      parseGitHubUrl pf url =
        Returned \<lparr>owner = js_split CHR ''/'' pathname ! 1,
                  repo = js_split CHR ''/'' pathname ! 2,
                  issue_number = Number pf (js_split CHR ''/'' pathname ! 4)\<rparr>)"
proof (intro conjI impI)
  assume p: "URL_pathname pf url = Inr pathname"
    and n: "length (js_split CHR ''/'' pathname) \<noteq> 5"
  have "parseGitHubUrl pf url =
          Thrown (Error (''[parseGitHubUrl] Invalid url: ['' @ url @ '']''))"
    using p n by (simp add: parseGitHubUrl_def)
  then show "\<exists>before after. parseGitHubUrl pf url = Thrown (Error (before @ url @ after))"
    by blast
next
  assume p: "URL_pathname pf url = Inr pathname"
    and n: "length (js_split CHR ''/'' pathname) = 5"
  then show "parseGitHubUrl pf url =
        Returned \<lparr>owner = js_split CHR ''/'' pathname ! 1,
                  repo = js_split CHR ''/'' pathname ! 2,
                  issue_number = Number pf (js_split CHR ''/'' pathname ! 4)\<rparr>"
    by (simp add: parseGitHubUrl_def Let_def)
qed

theorem parseGitHubUrl_segments_witness:
  "parseGitHubUrl demo_platform ''https://host/OWNER/REPO/pull/42'' =
     Returned \<lparr>owner = ''OWNER'', repo = ''REPO'', issue_number = Num 42\<rparr> \<and>
   (\<exists>before after. parseGitHubUrl demo_platform ''https://host/OWNER/REPO'' =
      Thrown (Error (before @ ''https://host/OWNER/REPO'' @ after)))"
proof -
  have p1: "URL_pathname demo_platform ''https://host/OWNER/REPO/pull/42'' = Inr ''/OWNER/REPO/pull/42''"
    by (simp add: demo_platform_def demo_pathname_def)
  have p2: "URL_pathname demo_platform ''https://host/OWNER/REPO'' = Inr ''/OWNER/REPO''"
    by (simp add: demo_platform_def demo_pathname_def)
  have n: "Number demo_platform ''42'' = Num 42"
    by (simp add: demo_platform_def decimal_def)
  from parseGitHubUrl_segments [OF p1] parseGitHubUrl_segments [OF p2] n
  show ?thesis by simp
qed

subsection \<open>Watch targets\<close>

lemma js_split_no_separator: "c \<notin> set s \<Longrightarrow> js_split c s = [s]"
  by (induction s) auto

lemma js_split_separator: "c \<notin> set a \<Longrightarrow> js_split c (a @ c # b) = a # js_split c b"
  by (induction a) auto

lemma parseTarget_org_repo:
  assumes "repository_owner_login ctx = Some login"
    and "CHR ''/'' \<notin> set orgPart" and "CHR ''/'' \<notin> set repoPart" and "repoPart \<noteq> []"
  shows "parseTarget ctx (orgPart @ ''/'' @ repoPart) w =
           (if orgPart \<noteq> login then (Returned None, w)
            else (Returned (Some \<lparr>org = login, repoTarget = repoPart\<rparr>), w))"
  using assms
  by (simp add: parseTarget_def js_split_separator js_split_no_separator js_index_def truthy_def)

lemma parseTarget_no_separator:
  assumes "repository_owner_login ctx = Some login" and "CHR ''/'' \<notin> set target"
  shows "parseTarget ctx target w = (Returned (Some \<lparr>org = login, repoTarget = target\<rparr>), w)"
  using assms
  by (simp add: parseTarget_def js_split_no_separator js_index_def truthy_def)

lemma reduceTargets_append:
  "reduceTargets ctx sign acc (xs @ ys) w =
     await (reduceTargets ctx sign acc xs w) (\<lambda>acc' w'. reduceTargets ctx sign acc' ys w')"
  by (induction xs arbitrary: acc w) (auto simp: await_def split: prod.splits outcome.splits option.splits)


text \<open>
  C5, as amended. A watch target of the form \<open>org/repo\<close> (a repository part that is not
  empty) whose organisation is not the current repository owner is parsed to \<^verbatim>\<open>null\<close> and
  adds no term to the filter: the filter built from a list of targets is the one built
  from the list without it. A target without \<^verbatim>\<open>/\<close> is never dropped, whatever it names:
  it is read as a repository of the current owner.
\<close>

theorem parseTarget_foreign_org:
  assumes "repository_owner_login ctx = Some login"
  shows "(CHR ''/'' \<notin> set orgPart \<and> CHR ''/'' \<notin> set repoPart \<and> repoPart \<noteq> [] \<and> orgPart \<noteq> login \<longrightarrow>
            parseTarget ctx (orgPart @ ''/'' @ repoPart) w = (Returned None, w) \<and>
            reduceTargets ctx sign acc (before @ (orgPart @ ''/'' @ repoPart) # after) w =
              reduceTargets ctx sign acc (before @ after) w) \<and>
         (CHR ''/'' \<notin> set target \<longrightarrow>
            parseTarget ctx target w = (Returned (Some \<lparr>org = login, repoTarget = target\<rparr>), w))"
proof (intro conjI impI)
  assume a: "CHR ''/'' \<notin> set orgPart \<and> CHR ''/'' \<notin> set repoPart \<and> repoPart \<noteq> [] \<and> orgPart \<noteq> login"
  then show dropped: "parseTarget ctx (orgPart @ ''/'' @ repoPart) w = (Returned None, w)"
    using assms parseTarget_org_repo [of ctx login orgPart repoPart w] by simp
  have "\<And>w'. parseTarget ctx (orgPart @ ''/'' @ repoPart) w' = (Returned None, w')"
    using a assms parseTarget_org_repo [of ctx login orgPart repoPart] by simp
  then have "\<And>acc' w'. reduceTargets ctx sign acc' ((orgPart @ ''/'' @ repoPart) # after) w' =
      reduceTargets ctx sign acc' after w'"
    by simp
  then show "reduceTargets ctx sign acc (before @ (orgPart @ ''/'' @ repoPart) # after) w =
              reduceTargets ctx sign acc (before @ after) w"
    by (simp only: reduceTargets_append)
next
  assume "CHR ''/'' \<notin> set target"
  then show "parseTarget ctx target w = (Returned (Some \<lparr>org = login, repoTarget = target\<rparr>), w)"
    using assms by (rule parseTarget_no_separator [rotated])
qed

theorem parseTarget_foreign_org_witness:
  "parseTarget demo_context ''otherorg/repo'' demo_world = (Returned None, demo_world) \<and>
   reduceTargets demo_context ''-'' [] [''acme/a'', ''otherorg/repo'', ''acme/b''] demo_world =
     reduceTargets demo_context ''-'' [] [''acme/a'', ''acme/b''] demo_world \<and>
   parseTarget demo_context ''otherorg'' demo_world =
     (Returned (Some \<lparr>org = ''acme'', repoTarget = ''otherorg''\<rparr>), demo_world)"
proof -
  have o: "repository_owner_login demo_context = Some ''acme''"
    by (simp add: demo_context_def)
  from parseTarget_foreign_org [OF o, of "''otherorg''" "''repo''" demo_world "''-''" "[]"
      "[''acme/a'']" "[''acme/b'']" "''otherorg''"]
  show ?thesis by simp
qed

text \<open>
  C5 as stated fails for a target of the form \<open>org\<close>: with owner \<open>acme\<close>, the target
  \<open>otherorg\<close> is not parsed to \<^verbatim>\<open>null\<close>, and as an ignore target it adds the term
  \<^verbatim>\<open>-repo:acme/otherorg\<close> to the filter.
\<close>

theorem parseTarget_foreign_org_counterexample:
  "fst (parseTarget demo_context ''otherorg'' demo_world) \<noteq> Returned None \<and>
   fst (searchFilter demo_context \<lparr>monitor = [''acme/widgets''], ignore = [''otherorg'']\<rparr> demo_world) =
     Returned [''repo:acme/widgets'', ''-repo:acme/otherorg'']"
  by (simp add: searchFilter_def defaultMonitor_def await_def parseTarget_def demo_context_def
      js_index_def truthy_def filterTerm_def)

subsection \<open>The search filter\<close>








subsection \<open>One attempt of the CI gate\<close>

lemma findFailure_found:
  "fst (findFailure rs w) = list_ex (\<lambda>r. conclusion r = Some ''failure'') rs"
  by (induction rs arbitrary: w) (simp_all add: Let_def)

lemma find_pending:
  "(find (\<lambda>r. status r \<noteq> ''completed'') (filter (\<lambda>r. name r \<noteq> workflowName ctx) runs) \<noteq> None) =
     hasPending ctx runs"
  by (auto simp: hasPending_def find_None_iff list_ex_iff)

lemma findFailure_filtered:
  "fst (findFailure (filter (\<lambda>r. name r \<noteq> workflowName ctx) runs) w) = hasFailure ctx runs"
  by (auto simp: findFailure_found hasFailure_def list_ex_iff)

lemma checkResultsLoop_step:
  "checkResultsLoop ctx (runs # checkResults) w =
     (if hasPending ctx runs then (None, w)
      else if hasFailure ctx runs
           then (Some False, snd (findFailure (filter (\<lambda>r. name r \<noteq> workflowName ctx) runs) w))
           else checkResultsLoop ctx checkResults
                  (snd (findFailure (filter (\<lambda>r. name r \<noteq> workflowName ctx) runs) w)))"
proof -
  obtain found w1 where f: "findFailure (filter (\<lambda>r. name r \<noteq> workflowName ctx) runs) w = (found, w1)"
    by (cases "findFailure (filter (\<lambda>r. name r \<noteq> workflowName ctx) runs) w")
  with findFailure_filtered [of ctx runs w] have "found = hasFailure ctx runs"
    by simp
  with f find_pending [of ctx runs] show ?thesis
    by (simp add: Let_def)
qed

lemma checkResultsLoop_none_pending:
  "\<not> list_ex (hasPending ctx) checkResults \<Longrightarrow>
   fst (checkResultsLoop ctx checkResults w) = Some (\<not> list_ex (hasFailure ctx) checkResults)"
  by (induction checkResults arbitrary: w) (simp_all add: checkResultsLoop_step del: checkResultsLoop.simps(2))

lemma checkResultsLoop_first_pending:
  "\<not> list_ex (hasPending ctx) before \<Longrightarrow> hasPending ctx suite \<Longrightarrow>
   fst (checkResultsLoop ctx (before @ suite # after) w) =
     (if list_ex (hasFailure ctx) before then Some False else None)"
  by (induction before arbitrary: w) (simp_all add: checkResultsLoop_step del: checkResultsLoop.simps(2))

lemma ciAttempt_fetched:
  "listForSuites ctx params checkSuites w = (answers, w1) \<Longrightarrow>
   Promise_all answers = Returned checkResults \<Longrightarrow>
   ciAttempt ctx params checkSuites w =
     (Returned (fst (checkResultsLoop ctx checkResults w1)), snd (checkResultsLoop ctx checkResults w1))"
  by (simp add: ciAttempt_def split: prod.splits)

text \<open>
  C4, as amended. In an attempt whose requests succeed, the suites are looked at in their
  order, each without the runs named as the automation's own workflow. When no suite has
  a run that is not completed, the result is false if a run has the conclusion failure,
  and true otherwise. When a suite has a run that is not completed, the attempt is
  indeterminate only if no suite before the first such suite has a run with the conclusion
  failure; if one has, the result is false.
\<close>

theorem ciAttempt_result:
  assumes "listForSuites ctx params checkSuites w = (answers, w1)"
    and "Promise_all answers = Returned checkResults"
  shows "(\<not> list_ex (hasPending ctx) checkResults \<longrightarrow>
            fst (ciAttempt ctx params checkSuites w) =
              Returned (Some (\<not> list_ex (hasFailure ctx) checkResults))) \<and>
         (checkResults = before @ suite # after \<and> \<not> list_ex (hasPending ctx) before \<and>
            hasPending ctx suite \<longrightarrow>
            fst (ciAttempt ctx params checkSuites w) =
              Returned (if list_ex (hasFailure ctx) before then Some False else None))"
  using ciAttempt_fetched [OF assms]
  by (auto simp: checkResultsLoop_none_pending checkResultsLoop_first_pending)

text \<open>
  C4 as stated fails: when the first suite has a failed run and the second suite a run in
  progress, neither the automation's own, the attempt is not indeterminate: its result
  is false.
\<close>

theorem ciAttempt_result_counterexample:
  "hasPending (demo_ci_context 2 red_then_pending) [demo_run ''test'' ''in_progress'' None] \<and>
   fst (ciAttempt (demo_ci_context 2 red_then_pending) demo_params (demo_suites 2) demo_world) =
     Returned (Some False)"
  by code_simp

theorem ciAttempt_result_witness:
  "fst (ciAttempt (demo_ci_context 1 green_with_self) demo_params (demo_suites 1) demo_world) =
     Returned (Some True) \<and>
   fst (ciAttempt (demo_ci_context 3 green_pending_red) demo_params (demo_suites 3) demo_world) =
     Returned None"
proof -
  let ?g = "demo_ci_context 1 green_with_self"
  let ?c = "demo_ci_context 3 green_pending_red"
  let ?s1 = "[demo_run ''build'' ''completed'' (Some ''success''),
              demo_run ''Auto Merge'' ''in_progress'' None]"
  let ?s2 = "[demo_run ''test'' ''in_progress'' None]"
  let ?s3 = "[demo_run ''lint'' ''completed'' (Some ''failure'')]"
  have a: "listForSuites ?g demo_params (demo_suites 1) demo_world =
             (fst (listForSuites ?g demo_params (demo_suites 1) demo_world),
              snd (listForSuites ?g demo_params (demo_suites 1) demo_world))"
    by simp
  have b: "Promise_all (fst (listForSuites ?g demo_params (demo_suites 1) demo_world)) =
             Returned [?s1]"
    by code_simp
  have c: "listForSuites ?c demo_params (demo_suites 3) demo_world =
             (fst (listForSuites ?c demo_params (demo_suites 3) demo_world),
              snd (listForSuites ?c demo_params (demo_suites 3) demo_world))"
    by simp
  have d: "Promise_all (fst (listForSuites ?c demo_params (demo_suites 3) demo_world)) =
             Returned ([?s1] @ ?s2 # [?s3])"
    by code_simp
  have e: "\<not> list_ex (hasPending ?g) [?s1]"
    by code_simp
  have f: "\<not> list_ex (hasFailure ?g) [?s1]"
    by code_simp
  have g: "\<not> list_ex (hasPending ?c) [?s1]"
    by code_simp
  have h: "hasPending ?c ?s2"
    by code_simp
  have i: "\<not> list_ex (hasFailure ?c) [?s1]"
    by code_simp
  from ciAttempt_result [OF a b] e f
    ciAttempt_result [OF c d, where before = "[?s1]" and suite = ?s2 and after = "[?s3]"] g h i
  show ?thesis by simp
qed

subsection \<open>The effects of the CI gate\<close>

lemma extends_iff:
  "extends P w w' \<longleftrightarrow> tracked w' = tracked w \<and> (\<exists>es. trace w' = trace w @ es \<and> list_all P es)"
  by (auto simp: extends_def added_def)

lemma extends_refl: "extends P w w"
  by (simp add: extends_iff)

lemma extends_trans: "extends P w w' \<Longrightarrow> extends P w' w'' \<Longrightarrow> extends P w w''"
  by (auto simp: extends_iff)

lemma extends_emit: "P e \<Longrightarrow> extends P w (emit e w)"
  by (simp add: extends_iff emit_def)

lemma extends_logger: "P (Log level message) \<Longrightarrow> extends P w (logger level message w)"
  by (simp add: logger_def extends_emit)

lemma extends_mono: "extends P w w' \<Longrightarrow> (\<And>e. P e \<Longrightarrow> Q e) \<Longrightarrow> extends Q w w'"
  by (auto simp: extends_iff list_all_iff)

lemma quiet_simps [simp]:
  "quiet (Log level message)" "quiet (PullsGet params)" "quiet (ListReviews params)"
  "quiet (ListSuitesForRef own rep ref)" "quiet (ListForSuite own rep suite)"
  "quiet (TimelineEvents params)" "quiet (SearchIssuesAndPullRequests q)"
  "\<not> quiet (StoreDelete url)" "\<not> quiet (PullsMerge params)" "\<not> quiet (Wait delay)"
  by (simp_all add: quiet_def)

lemma request_extends: "P e \<Longrightarrow> extends P w (snd (request e answer w))"
  by (simp add: request_def extends_emit split: sum.splits)

lemma listForSuites_extends:
  "extends quiet w (snd (listForSuites ctx params checkSuites w))"
proof (induction checkSuites arbitrary: w)
  case Nil
  show ?case by (simp add: extends_refl)
next
  case (Cons suite checkSuites)
  let ?w1 = "logger LogDebug
               (CheckingRunsForSuite (suite_id suite) (suite_url suite) (workflowName ctx)) w"
  let ?w2 = "emit (ListForSuite (owner params) (repo params) (suite_id suite)) ?w1"
  have "extends quiet w ?w2"
    by (rule extends_trans [OF extends_logger extends_emit]) simp_all
  from extends_trans [OF this Cons.IH [of ?w2]] show ?case
    by (auto simp: Let_def split: prod.splits)
qed

lemma findFailure_extends: "extends quiet w (snd (findFailure rs w))"
proof (induction rs arbitrary: w)
  case Nil
  show ?case by (simp add: extends_refl)
next
  case (Cons r rs)
  have "extends quiet w (logger LogDebug (WorkflowState r) w)"
    by (rule extends_logger) simp
  from this extends_trans [OF this Cons.IH] show ?case
    by (simp add: Let_def)
qed

lemma checkResultsLoop_extends: "extends quiet w (snd (checkResultsLoop ctx checkResults w))"
proof (induction checkResults arbitrary: w)
  case Nil
  show ?case by (simp add: extends_refl)
next
  case (Cons runs checkResults)
  let ?w1 = "snd (findFailure (filter (\<lambda>r. name r \<noteq> workflowName ctx) runs) w)"
  have "extends quiet w ?w1" by (rule findFailure_extends)
  from this extends_trans [OF this Cons.IH [of ?w1]] show ?case
    by (simp add: checkResultsLoop_step extends_refl del: checkResultsLoop.simps(2))
qed

lemma ciAttempt_extends: "extends quiet w (snd (ciAttempt ctx params checkSuites w))"
proof -
  obtain answers w1 where l: "listForSuites ctx params checkSuites w = (answers, w1)"
    by (cases "listForSuites ctx params checkSuites w")
  with listForSuites_extends [of w ctx params checkSuites] have 1: "extends quiet w w1"
    by simp
  show ?thesis
  proof (cases "Promise_all answers")
    case (Thrown e)
    with l 1 show ?thesis by (simp add: ciAttempt_def)
  next
    case (Returned checkResults)
    with l extends_trans [OF 1 checkResultsLoop_extends [of w1 ctx checkResults]]
    show ?thesis by (auto simp: ciAttempt_def split: prod.splits)
  qed
qed

lemma ciUntil_None: "ciUntil None w = (False, logger LogInfo WillRetryCi w)"
  by (simp add: ciUntil_def)

lemma ciUntil_Some: "ciUntil (Some b) w = (True, w)"
  by (simp add: ciUntil_def)

lemma ciUntil_extends: "extends quiet w (snd (ciUntil lastResult w))"
  by (simp add: ciUntil_def extends_refl extends_logger)

lemma polled_quiet: "extends quiet w w' \<Longrightarrow> polled delay b w w'"
proof -
  assume "extends quiet w w'"
  then obtain es where es: "tracked w' = tracked w" "trace w' = trace w @ es" "list_all quiet es"
    by (auto simp: extends_iff)
  then have "filter (\<lambda>e. e = Wait delay) es = []"
    by (auto simp: filter_empty_conv list_all_iff)
  with es show ?thesis
    unfolding polled_def by (auto simp: list_all_iff intro!: exI [of _ es])
qed

lemma polled_wait: "polled delay b (emit (Wait delay) w) w' \<Longrightarrow> polled delay (Suc b) w w'"
  unfolding polled_def by (auto simp: emit_def)

lemma polled_trans:
  "polled delay a w w' \<Longrightarrow> polled delay b w' w'' \<Longrightarrow> polled delay (a + b) w w''"
  unfolding polled_def
  by (elim conjE exE, intro conjI, simp)
     (rule_tac x = "es @ esa" in exI, simp)

lemma polled_mono: "polled delay a w w' \<Longrightarrow> a \<le> b \<Longrightarrow> polled delay b w w'"
  unfolding polled_def by auto

lemma polled_extends: "polled delay b w w' \<Longrightarrow> extends (\<lambda>e. quiet e \<or> e = Wait delay) w w'"
  unfolding polled_def by (auto simp: extends_iff)

text \<open>
  The retry adds the effects of its attempts and waits of \<open>delay\<close> milliseconds, fewer than
  \<open>2 ^ (triesLeft + 1)\<close> of them.
\<close>

lemma actualRetry_polled:
  assumes fn: "\<And>w. extends quiet w (snd (fn w))"
    and until: "\<And>result w. extends quiet w (snd (until result w))"
  shows "polled delay (2 ^ Suc triesLeft - 2) w (snd (actualRetry fn until delay triesLeft w))"
proof (induction triesLeft arbitrary: w)
  case 0
  obtain r w1 where a: "fn w = (r, w1)" by (cases "fn w")
  with fn [of w] have 1: "extends quiet w w1" by simp
  show ?case
  proof (cases r)
    case (Thrown e)
    with a polled_quiet [OF 1] show ?thesis by simp
  next
    case (Returned result)
    obtain ok w2 where b: "until result w1 = (ok, w2)" by (cases "until result w1")
    with until [of w1 result] have "extends quiet w1 w2" by simp
    with 1 have "extends quiet w w2" by (rule extends_trans)
    from polled_quiet [OF this] a b Returned show ?thesis
      by (cases ok) simp_all
  qed
next
  case (Suc k)
  let ?B = "2 ^ Suc k - 2 :: nat"
  have two: "(1::nat) \<le> 2 ^ k" by simp
  have again: "polled delay (Suc ?B) w' (snd (actualRetry fn until delay k (emit (Wait delay) w')))"
    for w'
    by (rule polled_wait) (rule Suc.IH)
  have step: "polled delay (Suc ?B) w (snd (actualRetry fn until delay k (emit (Wait delay) w')))"
    if "extends quiet w w'" for w'
    using polled_trans [OF polled_quiet [OF that, of delay 0] again [of w']] by simp
  have le1: "Suc ?B \<le> 2 ^ Suc (Suc k) - 2" using two unfolding power_Suc by arith
  have le2: "Suc ?B + Suc ?B \<le> 2 ^ Suc (Suc k) - 2" using two unfolding power_Suc by arith
  obtain r w1 where a: "fn w = (r, w1)" by (cases "fn w")
  with fn [of w] have 1: "extends quiet w w1" by simp
  show ?case
  proof (cases r)
    case (Thrown e)
    with a polled_mono [OF step [OF 1] le1] show ?thesis by simp
  next
    case (Returned result)
    obtain ok w2 where b: "until result w1 = (ok, w2)" by (cases "until result w1")
    with until [of w1 result] have "extends quiet w1 w2" by simp
    with 1 have 2: "extends quiet w w2" by (rule extends_trans)
    show ?thesis
    proof (cases ok)
      case True
      with a b Returned polled_quiet [OF 2] show ?thesis by simp
    next
      case False
      obtain r' w3 where c: "actualRetry fn until delay k (emit (Wait delay) w2) = (r', w3)"
        by (cases "actualRetry fn until delay k (emit (Wait delay) w2)")
      with step [OF 2] have 3: "polled delay (Suc ?B) w w3" by simp
      show ?thesis
      proof (cases r')
        case (Returned later)
        with a b c False \<open>r = Returned result\<close> polled_mono [OF 3 le1] show ?thesis by simp
      next
        case (Thrown err)
        show ?thesis
        proof (cases "err = TooManyTries")
          case True
          with a b c False Thrown \<open>r = Returned result\<close> polled_mono [OF 3 le1] show ?thesis
            by simp
        next
          case e: False
          from polled_mono [OF polled_trans [OF 3 again [of w3]] le2]
          show ?thesis using a b c False Thrown e \<open>r = Returned result\<close> by simp
        qed
      qed
    qed
  qed
qed


lemma actualRetry_rejected:
  assumes "fn w = (Returned result, w1)" and "until result w1 = (False, w2)"
  shows "actualRetry fn until delay (Suc triesLeft) w =
           (case actualRetry fn until delay triesLeft (emit (Wait delay) w2) of
              (Returned later, w3) \<Rightarrow> (Returned later, w3)
            | (Thrown err, w3) \<Rightarrow>
                if err = TooManyTries then (Thrown err, w3)
                else actualRetry fn until delay triesLeft (emit (Wait delay) w3))"
  using assms by simp

lemma actualRetry_decided:
  assumes "fst (ciAttempt ctx params checkSuites w) = Returned (Some b)"
  shows "actualRetry (ciAttempt ctx params checkSuites) ciUntil delay n w =
           (Returned (Some b), snd (ciAttempt ctx params checkSuites w))"
  using assms
  by (cases "ciAttempt ctx params checkSuites w"; cases n) (simp_all add: ciUntil_Some)

lemma actualRetry_None:
  assumes "fst (ciAttempt ctx params checkSuites w) = Returned None"
  shows "actualRetry (ciAttempt ctx params checkSuites) ciUntil 60000 (Suc n) w =
           (case actualRetry (ciAttempt ctx params checkSuites) ciUntil 60000 n
                   (retryWorld ctx params checkSuites (Suc 0) w) of
              (Returned later, w3) \<Rightarrow> (Returned later, w3)
            | (Thrown err, w3) \<Rightarrow>
                if err = TooManyTries then (Thrown err, w3)
                else actualRetry (ciAttempt ctx params checkSuites) ciUntil 60000 n
                       (emit (Wait 60000) w3))"
proof -
  from assms have a: "ciAttempt ctx params checkSuites w =
      (Returned None, snd (ciAttempt ctx params checkSuites w))"
    by (cases "ciAttempt ctx params checkSuites w") simp
  from actualRetry_rejected [where fn = "ciAttempt ctx params checkSuites" and until = ciUntil
      and w = w, OF a ciUntil_None]
  show ?thesis by simp
qed

lemma retryWorld_shift:
  "retryWorld ctx params checkSuites k (retryWorld ctx params checkSuites (Suc 0) w) =
     retryWorld ctx params checkSuites (Suc k) w"
  by (induction k) simp_all

lemma actualRetry_indeterminate:
  assumes "k \<le> n"
    and "\<forall>j<k. fst (ciAttempt ctx params checkSuites (retryWorld ctx params checkSuites j w)) = Returned None"
    and "fst (ciAttempt ctx params checkSuites (retryWorld ctx params checkSuites k w)) =
           Returned (Some b)"
  shows "actualRetry (ciAttempt ctx params checkSuites) ciUntil 60000 n w =
           (Returned (Some b),
            snd (ciAttempt ctx params checkSuites (retryWorld ctx params checkSuites k w)))"
  using assms
proof (induction k arbitrary: n w)
  case 0
  then show ?case using actualRetry_decided [of ctx params checkSuites w b 60000 n] by simp
next
  case (Suc k)
  from Suc.prems(1) obtain m where n: "n = Suc m" and m: "k \<le> m" by (cases n) simp_all
  from Suc.prems(2) have
    first: "fst (ciAttempt ctx params checkSuites (retryWorld ctx params checkSuites 0 w)) = Returned None"
    by blast
  have later: "\<forall>j<k. fst (ciAttempt ctx params checkSuites
                 (retryWorld ctx params checkSuites j (retryWorld ctx params checkSuites (Suc 0) w))) =
               Returned None"
    using Suc.prems(2) by (simp only: retryWorld_shift) auto
  have last: "fst (ciAttempt ctx params checkSuites
                 (retryWorld ctx params checkSuites k (retryWorld ctx params checkSuites (Suc 0) w))) =
               Returned (Some b)"
    using Suc.prems(3) by (simp only: retryWorld_shift)
  have ih: "actualRetry (ciAttempt ctx params checkSuites) ciUntil 60000 m
              (retryWorld ctx params checkSuites (Suc 0) w) =
            (Returned (Some b),
             snd (ciAttempt ctx params checkSuites (retryWorld ctx params checkSuites (Suc k) w)))"
    using Suc.IH [OF m later last] by (simp only: retryWorld_shift)
  from first have first': "fst (ciAttempt ctx params checkSuites w) = Returned None" by simp
  show ?case
    unfolding n by (simp only: actualRetry_None [OF first'] ih prod.case outcome.case)
qed



subsection \<open>The polling of the CI gate\<close>

lemma isCiGreen_fetched:
  assumes "octokit_checks_listSuitesForRef ctx (clock w) (owner params) (repo params) sha =
             Inr checkSuites"
  shows "isCiGreen ctx sha params w =
           actualRetry (ciAttempt ctx params checkSuites) ciUntil 60000 99
             (emit (ListSuitesForRef (owner params) (repo params) sha) w)"
  using assms by (simp add: isCiGreen_def request_def retryAsync_def)

lemma isCiGreen_decided:
  assumes "octokit_checks_listSuitesForRef ctx (clock w) (owner params) (repo params) sha =
             Inr checkSuites"
    and "k < 100"
    and "\<forall>j<k. fst (ciAttempt ctx params checkSuites
                     (retryWorld ctx params checkSuites j
                        (emit (ListSuitesForRef (owner params) (repo params) sha) w))) =
                Returned None"
    and "fst (ciAttempt ctx params checkSuites
                (retryWorld ctx params checkSuites k
                   (emit (ListSuitesForRef (owner params) (repo params) sha) w))) =
           Returned (Some b)"
  shows "isCiGreen ctx sha params w =
           (Returned (Some b),
            snd (ciAttempt ctx params checkSuites
                   (retryWorld ctx params checkSuites k
                      (emit (ListSuitesForRef (owner params) (repo params) sha) w))))"
proof -
  from assms(2) have "k \<le> 99" by simp
  from actualRetry_indeterminate [OF this assms(3) assms(4)]
  show ?thesis by (simp only: isCiGreen_fetched [OF assms(1)])
qed


text \<open>
  The CI gate leaves the tracked list as it is and adds log entries, reading requests and
  waits of 60000 milliseconds.
\<close>

lemma isCiGreen_effects:
  "polled 60000 (2 ^ 100 - 2) w (snd (isCiGreen ctx sha params w))"
proof (cases "octokit_checks_listSuitesForRef ctx (clock w) (owner params) (repo params) sha")
  case (Inl e)
  have "extends quiet w (snd (isCiGreen ctx sha params w))"
    using Inl
    by (auto simp: isCiGreen_def request_def intro!: extends_trans [OF extends_emit extends_logger])
  then show ?thesis by (rule polled_quiet)
next
  case (Inr checkSuites)
  let ?w1 = "emit (ListSuitesForRef (owner params) (repo params) sha) w"
  have "extends quiet w ?w1" by (simp add: extends_emit)
  from polled_trans [OF polled_quiet [OF this, of 60000 0]
      actualRetry_polled [of "ciAttempt ctx params checkSuites" ciUntil 60000 99 ?w1,
        OF ciAttempt_extends ciUntil_extends]]
  show ?thesis by (simp only: isCiGreen_fetched [OF Inr]) simp
qed














subsection \<open>Failed requests in the approval counter and the CI gate\<close>

lemma getApprovalCount_returns: "\<exists>n. fst (getApprovalCount ctx params w) = Returned n"
  by (simp add: getApprovalCount_def request_def split: sum.splits)






subsection \<open>One turn of the orchestrator's loop\<close>

lemma isPastOffset_world: "snd (isPastOffset ctx lastActivity offset w) = w"
  by (simp add: isPastOffset_def Let_def split: sum.splits option.splits)

lemma tryBlock_open:
  assumes "parseGitHubUrl (platform ctx) pullRequest = Returned gitHubUrl"
    and "getPullRequestDetails ctx gitHubUrl w = (Returned d, w1)"
    and "\<not> merged d" and "\<not> truthy (closed_at d)"
  shows "tryBlock ctx pullRequest w =
           checkOpen ctx pullRequest gitHubUrl d
             (logger LogDebug (ProcessingPullRequest pullRequest) w1)"
  using assms by (simp add: tryBlock_def await_def Let_def)

lemma tryBlock_closed:
  assumes "parseGitHubUrl (platform ctx) pullRequest = Returned gitHubUrl"
    and "getPullRequestDetails ctx gitHubUrl w = (Returned d, w1)"
    and "merged d \<or> truthy (closed_at d)"
  shows "tryBlock ctx pullRequest w =
           (Returned (),
            removeClosed ctx pullRequest (logger LogDebug (ProcessingPullRequest pullRequest) w1))"
  using assms by (auto simp: tryBlock_def await_def Let_def)

lemma checkOpen_due:
  assumes "parseGitHubUrl (platform ctx) pullRequest = Returned gitHubUrl"
    and "request (TimelineEvents gitHubUrl) (\<lambda>t. getAllTimelineEvents ctx t gitHubUrl) w =
           (Returned activity, w2)"
    and "lastActivityDate (platform ctx) activity = None \<or>
         fst (isPastOffset ctx (lastActivityDate (platform ctx) activity)
                (mergeTimeout (getMergeTimeoutAndApprovalRequiredCount ctx (author_association d)))
                (logger LogDebug
                   (RequirementsFor (author_association d)
                      (getMergeTimeoutAndApprovalRequiredCount ctx (author_association d))
                      (lastActivityDate (platform ctx) activity)) w2)) = Returned True"
  shows "checkOpen ctx pullRequest gitHubUrl d w =
           mergeWhenDue ctx pullRequest gitHubUrl d
             (getMergeTimeoutAndApprovalRequiredCount ctx (author_association d))
             (lastActivityDate (platform ctx) activity)
             (logger LogDebug
                (RequirementsFor (author_association d)
                   (getMergeTimeoutAndApprovalRequiredCount ctx (author_association d))
                   (lastActivityDate (platform ctx) activity)) w2)"
proof -
  let ?req = "getMergeTimeoutAndApprovalRequiredCount ctx (author_association d)"
  let ?last = "lastActivityDate (platform ctx) activity"
  let ?w3 = "logger LogDebug (RequirementsFor (author_association d) ?req ?last) w2"
  have "(if ?last = None then (Returned True, ?w3)
         else isPastOffset ctx ?last (mergeTimeout ?req) ?w3) = (Returned True, ?w3)"
  proof (cases "?last = None")
    case True
    then show ?thesis by simp
  next
    case False
    with assms(3) have "fst (isPastOffset ctx ?last (mergeTimeout ?req) ?w3) = Returned True"
      by simp
    with isPastOffset_world [of ctx ?last "mergeTimeout ?req" ?w3] False show ?thesis
      by (cases "isPastOffset ctx ?last (mergeTimeout ?req) ?w3") simp
  qed
  then show ?thesis
    using assms(1,2) by (simp add: checkOpen_def await_def Let_def)
qed

lemma mergeWhenDue_ready:
  assumes "getApprovalCount ctx gitHubUrl w = (Returned n, w4)"
    and "requiredApprovalCount requirements \<le> int n"
    and "isCiGreen ctx (head_sha d) gitHubUrl w4 = (Returned (Some True), w5)"
  shows "mergeWhenDue ctx pullRequest gitHubUrl d requirements lastActivity w =
           mergePullRequest ctx pullRequest gitHubUrl
             (logger LogInfo (WillMerge pullRequest (mergeTimeout requirements) lastActivity) w5)"
  using assms by (simp add: mergeWhenDue_def await_def)

lemma getApprovalCount_extends: "extends quiet w (snd (getApprovalCount ctx params w))"
proof (cases "octokit_pulls_listReviews ctx (clock w) params")
  case (Inl e)
  then show ?thesis
    by (auto simp: getApprovalCount_def request_def intro!: extends_trans [OF extends_emit extends_logger])
next
  case (Inr reviews)
  then show ?thesis
    by (simp add: getApprovalCount_def request_def extends_emit)
qed

lemma isCiGreen_extends:
  "extends (\<lambda>e. quiet e \<or> e = Wait 60000) w (snd (isCiGreen ctx sha params w))"
  using isCiGreen_effects [of w ctx sha params] by (rule polled_extends)

text \<open>
  The effects of the checks on a pull request that is open, past due, approved and green:
  from the start of the turn to the log entry that announces the merge, only log entries,
  reading requests and waits of the CI gate.
\<close>

lemma ready_checks:
  assumes "getPullRequestDetails ctx gitHubUrl w = (Returned d, w1)"
    and "request (TimelineEvents gitHubUrl) (\<lambda>t. getAllTimelineEvents ctx t gitHubUrl)
           (logger LogDebug (ProcessingPullRequest pullRequest) w1) = (Returned activity, w2)"
    and "getApprovalCount ctx gitHubUrl (logger LogDebug message w2) = (Returned n, w4)"
    and "isCiGreen ctx sha gitHubUrl w4 = (Returned (Some True), w5)"
  shows "extends (\<lambda>e. quiet e \<or> e = Wait 60000) w (logger LogInfo announcement w5)"
proof -
  let ?P = "\<lambda>e. quiet e \<or> e = Wait 60000"
  have q: "\<And>a b. extends quiet a b \<Longrightarrow> extends ?P a b"
    by (erule extends_mono) simp
  have "extends quiet w (snd (getPullRequestDetails ctx gitHubUrl w))"
    unfolding getPullRequestDetails_def by (rule request_extends) simp
  with assms(1) have 1: "extends ?P w w1"
    by (simp add: q)
  have 2: "extends ?P w1 (logger LogDebug (ProcessingPullRequest pullRequest) w1)"
    by (rule q, rule extends_logger) simp
  have "extends quiet (logger LogDebug (ProcessingPullRequest pullRequest) w1)
          (snd (request (TimelineEvents gitHubUrl) (\<lambda>t. getAllTimelineEvents ctx t gitHubUrl)
                  (logger LogDebug (ProcessingPullRequest pullRequest) w1)))"
    by (rule request_extends) simp
  with assms(2) have 3: "extends ?P (logger LogDebug (ProcessingPullRequest pullRequest) w1) w2"
    by (simp add: q)
  have 4: "extends ?P w2 (logger LogDebug message w2)"
    by (rule q, rule extends_logger) simp
  have 5: "extends ?P (logger LogDebug message w2) w4"
    using assms(3) getApprovalCount_extends [of "logger LogDebug message w2" ctx gitHubUrl]
    by (simp add: q)
  have 6: "extends ?P w4 w5"
    using assms(4) isCiGreen_extends [of w4 ctx sha gitHubUrl] by simp
  have 7: "extends ?P w5 (logger LogInfo announcement w5)"
    by (rule q, rule extends_logger) simp
  from 1 2 3 4 5 6 7 show ?thesis
    by (blast intro: extends_trans)
qed

lemma tryBlock_ready:
  assumes "parseGitHubUrl (platform ctx) pullRequest = Returned gitHubUrl"
    and "getPullRequestDetails ctx gitHubUrl w = (Returned d, w1)"
    and "\<not> merged d" and "\<not> truthy (closed_at d)"
    and "request (TimelineEvents gitHubUrl) (\<lambda>t. getAllTimelineEvents ctx t gitHubUrl)
           (logger LogDebug (ProcessingPullRequest pullRequest) w1) = (Returned activity, w2)"
    and "lastActivityDate (platform ctx) activity = None \<or>
         fst (isPastOffset ctx (lastActivityDate (platform ctx) activity)
                (mergeTimeout (getMergeTimeoutAndApprovalRequiredCount ctx (author_association d)))
                (logger LogDebug
                   (RequirementsFor (author_association d)
                      (getMergeTimeoutAndApprovalRequiredCount ctx (author_association d))
                      (lastActivityDate (platform ctx) activity)) w2)) = Returned True"
    and "getApprovalCount ctx gitHubUrl
           (logger LogDebug
              (RequirementsFor (author_association d)
                 (getMergeTimeoutAndApprovalRequiredCount ctx (author_association d))
                 (lastActivityDate (platform ctx) activity)) w2) = (Returned n, w4)"
    and "requiredApprovalCount (getMergeTimeoutAndApprovalRequiredCount ctx (author_association d))
           \<le> int n"
    and "isCiGreen ctx (head_sha d) gitHubUrl w4 = (Returned (Some True), w5)"
  shows "tryBlock ctx pullRequest w =
           mergePullRequest ctx pullRequest gitHubUrl
             (logger LogInfo
                (WillMerge pullRequest
                   (mergeTimeout (getMergeTimeoutAndApprovalRequiredCount ctx (author_association d)))
                   (lastActivityDate (platform ctx) activity)) w5)"
  by (simp only: tryBlock_open [OF assms(1-4)] checkOpen_due [OF assms(1,5,6)]
      mergeWhenDue_ready [OF assms(7-9)])

subsection \<open>Merging a pull request that is ready\<close>

lemma mergePullRequest_result:
  "mergePullRequest ctx pullRequest gitHubUrl w =
     (case sqlite_pullRequest_delete ctx (clock w) pullRequest of
        Some e \<Rightarrow> (Thrown e, emit (StoreDelete pullRequest) w)
      | None \<Rightarrow>
          (case octokit_pulls_merge ctx (Suc (clock w)) gitHubUrl of
             Some e \<Rightarrow>
               (Thrown e,
                emit (PullsMerge gitHubUrl)
                  (emit (StoreDelete pullRequest)
                     (w\<lparr>tracked := removeAll pullRequest (tracked w)\<rparr>)))
           | None \<Rightarrow>
               (Returned (),
                emit (PullsMerge gitHubUrl)
                  (emit (StoreDelete pullRequest)
                     (w\<lparr>tracked := removeAll pullRequest (tracked w)\<rparr>)))))"
  by (simp add: mergePullRequest_def pullRequest_delete_def command_def await_def clock_def
      emit_def split: option.splits)

text \<open>
  C1, as amended. For a tracked pull request that is open, past due (its last activity
  date is invalid, or \<open>isPastOffset\<close> answers true), whose approval count is at least the
  required count and whose CI gate returns true, the turn of the loop adds, after the
  effects of its checks (log entries, reading requests and waits of the gate), exactly one
  request to the store to delete the URL. When that deletion succeeds, the URL is removed
  from the tracked list and the merge request follows the deletion, once; a failure of the
  merge is logged. When the deletion fails, no merge request is sent: the error is
  logged and the tracked list is as before.
\<close>

theorem merge_when_ready:
  assumes "parseGitHubUrl (platform ctx) pullRequest = Returned gitHubUrl"
    and "getPullRequestDetails ctx gitHubUrl w = (Returned d, w1)"
    and "\<not> merged d" and "\<not> truthy (closed_at d)"
    and "request (TimelineEvents gitHubUrl) (\<lambda>t. getAllTimelineEvents ctx t gitHubUrl)
           (logger LogDebug (ProcessingPullRequest pullRequest) w1) = (Returned activity, w2)"
    and "lastActivityDate (platform ctx) activity = None \<or>
         fst (isPastOffset ctx (lastActivityDate (platform ctx) activity)
                (mergeTimeout (getMergeTimeoutAndApprovalRequiredCount ctx (author_association d)))
                (logger LogDebug
                   (RequirementsFor (author_association d)
                      (getMergeTimeoutAndApprovalRequiredCount ctx (author_association d))
                      (lastActivityDate (platform ctx) activity)) w2)) = Returned True"
    and "getApprovalCount ctx gitHubUrl
           (logger LogDebug
              (RequirementsFor (author_association d)
                 (getMergeTimeoutAndApprovalRequiredCount ctx (author_association d))
                 (lastActivityDate (platform ctx) activity)) w2) = (Returned n, w4)"
    and "requiredApprovalCount (getMergeTimeoutAndApprovalRequiredCount ctx (author_association d))
           \<le> int n"
    and "isCiGreen ctx (head_sha d) gitHubUrl w4 = (Returned (Some True), w5)"
  shows "\<exists>checks.
           list_all (\<lambda>e. quiet e \<or> e = Wait 60000) checks \<and>
           trace (processPullRequest ctx pullRequest w) =
             trace w @ checks @ StoreDelete pullRequest #
             (case sqlite_pullRequest_delete ctx (Suc (clock w5)) pullRequest of
                Some e \<Rightarrow> [Log LogError (CouldNotProcess pullRequest e)]
              | None \<Rightarrow>
                  PullsMerge gitHubUrl #
                  (case octokit_pulls_merge ctx (Suc (Suc (clock w5))) gitHubUrl of
                     Some e \<Rightarrow> [Log LogError (CouldNotProcess pullRequest e)]
                   | None \<Rightarrow> [])) \<and>
           tracked (processPullRequest ctx pullRequest w) =
             (case sqlite_pullRequest_delete ctx (Suc (clock w5)) pullRequest of
                Some e \<Rightarrow> tracked w
              | None \<Rightarrow> removeAll pullRequest (tracked w))"
proof -
  let ?req = "getMergeTimeoutAndApprovalRequiredCount ctx (author_association d)"
  let ?last = "lastActivityDate (platform ctx) activity"
  let ?w6 = "logger LogInfo (WillMerge pullRequest (mergeTimeout ?req) ?last) w5"
  from ready_checks [OF assms(2) assms(5) assms(7) assms(9)]
  have "extends (\<lambda>e. quiet e \<or> e = Wait 60000) w ?w6" .
  then obtain checks where c: "tracked ?w6 = tracked w" "trace ?w6 = trace w @ checks"
    "list_all (\<lambda>e. quiet e \<or> e = Wait 60000) checks"
    by (auto simp: extends_iff)
  have k: "clock ?w6 = Suc (clock w5)"
    by (simp add: clock_def logger_def emit_def)
  have "processPullRequest ctx pullRequest w =
          (case mergePullRequest ctx pullRequest gitHubUrl ?w6 of
             (Returned u, w') \<Rightarrow> w'
           | (Thrown e, w') \<Rightarrow> logger LogError (CouldNotProcess pullRequest e) w')"
    by (simp only: processPullRequest_def tryBlock_ready [OF assms])
  then have "trace (processPullRequest ctx pullRequest w) =
             trace w @ checks @ StoreDelete pullRequest #
             (case sqlite_pullRequest_delete ctx (Suc (clock w5)) pullRequest of
                Some e \<Rightarrow> [Log LogError (CouldNotProcess pullRequest e)]
              | None \<Rightarrow>
                  PullsMerge gitHubUrl #
                  (case octokit_pulls_merge ctx (Suc (Suc (clock w5))) gitHubUrl of
                     Some e \<Rightarrow> [Log LogError (CouldNotProcess pullRequest e)]
                   | None \<Rightarrow> [])) \<and>
           tracked (processPullRequest ctx pullRequest w) =
             (case sqlite_pullRequest_delete ctx (Suc (clock w5)) pullRequest of
                Some e \<Rightarrow> tracked w
              | None \<Rightarrow> removeAll pullRequest (tracked w))"
    using c(1,2) k
    by (simp add: mergePullRequest_result emit_def logger_def split: option.splits)
  with c(3) show ?thesis by blast
qed

lemmas demo_defs =
  demo_outcome_context_def demo_context_def demo_platform_def demo_pathname_def decimal_def
  demo_url_def demo_params_def demo_world_def demo_details_def demo_requirements_def
  demo_checks_def demo_at_def demo_activity_def

lemma demo_parse:
  "parseGitHubUrl (platform (demo_outcome_context deletion merging)) demo_url = Returned demo_params"
  by (simp add: parseGitHubUrl_def demo_defs)

lemma demo_get:
  "getPullRequestDetails (demo_outcome_context deletion merging) demo_params demo_world =
     (Returned demo_details, demo_at 1)"
  by (simp add: getPullRequestDetails_def request_def emit_def clock_def demo_defs)

lemma demo_open: "\<not> merged demo_details" "\<not> truthy (closed_at demo_details)"
  by (simp_all add: demo_details_def truthy_def)

lemma demo_timeline:
  "request (TimelineEvents demo_params)
     (\<lambda>t. getAllTimelineEvents (demo_outcome_context deletion merging) t demo_params)
     (logger LogDebug (ProcessingPullRequest demo_url) (demo_at 1)) =
     (Returned demo_activity, demo_at 3)"
  by (simp add: request_def emit_def logger_def clock_def demo_defs)

lemma demo_last:
  "lastActivityDate (platform (demo_outcome_context deletion merging)) demo_activity = Some 5000"
  by (simp add: lastActivityDate_def eventDates_def eventTimestamp_def new_Date_def Math_max_def
      TimeClip_def truthy_def List.map_filter_simps demo_defs)

lemma demo_req:
  "getMergeTimeoutAndApprovalRequiredCount (demo_outcome_context deletion merging)
     (author_association demo_details) = demo_requirements"
  by (simp add: getMergeTimeoutAndApprovalRequiredCount_def demo_defs)

lemma demo_log:
  "logger LogDebug (RequirementsFor (author_association demo_details) demo_requirements (Some 5000))
     (demo_at 3) = demo_at 4"
  by (simp add: logger_def emit_def demo_defs)

lemma demo_due:
  "fst (isPastOffset (demo_outcome_context deletion merging) (Some 5000)
          (mergeTimeout demo_requirements) (demo_at 4)) = Returned True"
  by (simp add: isPastOffset_def TimeClip_def demo_defs)

lemma demo_approvals:
  "getApprovalCount (demo_outcome_context deletion merging) demo_params (demo_at 4) =
     (Returned 2, demo_at 5)"
  by (simp add: getApprovalCount_def request_def emit_def clock_def demo_defs)

lemma demo_green:
  "isCiGreen (demo_outcome_context deletion merging) (head_sha demo_details) demo_params
     (demo_at 5) = (Returned (Some True), demo_at 9)"
proof -
  let ?c = "demo_outcome_context deletion merging"
  let ?suites = "[\<lparr>suite_id = 1, suite_url = ''suites/1''\<rparr>]"
  have s: "octokit_checks_listSuitesForRef ?c (clock (demo_at 5)) (owner demo_params)
             (repo demo_params) (head_sha demo_details) = Inr ?suites"
    by (simp add: demo_defs)
  have a: "ciAttempt ?c demo_params ?suites
             (retryWorld ?c demo_params ?suites 0
                (emit (ListSuitesForRef (owner demo_params) (repo demo_params)
                         (head_sha demo_details)) (demo_at 5))) =
           (Returned (Some True), demo_at 9)"
    by (simp add: ciAttempt_def Let_def logger_def emit_def clock_def demo_defs)
  from isCiGreen_decided [OF s, of 0 True] a show ?thesis
    by simp
qed

lemma demo_announce:
  "clock (demo_at 9) = 9" "tracked (demo_at 9) = [demo_url]" "trace (demo_at 9) = demo_checks"
  by (simp_all add: clock_def demo_at_def demo_checks_def)

lemma demo_due_or_invalid:
  "lastActivityDate (platform (demo_outcome_context deletion merging)) demo_activity = None \<or>
   fst (isPastOffset (demo_outcome_context deletion merging)
          (lastActivityDate (platform (demo_outcome_context deletion merging)) demo_activity)
          (mergeTimeout
             (getMergeTimeoutAndApprovalRequiredCount (demo_outcome_context deletion merging)
                (author_association demo_details)))
          (logger LogDebug
             (RequirementsFor (author_association demo_details)
                (getMergeTimeoutAndApprovalRequiredCount (demo_outcome_context deletion merging)
                   (author_association demo_details))
                (lastActivityDate (platform (demo_outcome_context deletion merging)) demo_activity))
             (demo_at 3))) = Returned True"
  by (simp only: demo_last demo_req demo_log demo_due simp_thms)

lemma demo_approved:
  "getApprovalCount (demo_outcome_context deletion merging) demo_params
     (logger LogDebug
        (RequirementsFor (author_association demo_details)
           (getMergeTimeoutAndApprovalRequiredCount (demo_outcome_context deletion merging)
              (author_association demo_details))
           (lastActivityDate (platform (demo_outcome_context deletion merging)) demo_activity))
        (demo_at 3)) = (Returned 2, demo_at 5)"
  by (simp only: demo_last demo_req demo_log demo_approvals)

lemma demo_enough:
  "requiredApprovalCount
     (getMergeTimeoutAndApprovalRequiredCount (demo_outcome_context deletion merging)
        (author_association demo_details)) \<le> int 2"
  by (simp add: demo_req demo_requirements_def)

lemma demo_timeout: "mergeTimeout demo_requirements = ''1000''"
  by (simp add: demo_requirements_def)

lemma demo_context_outcome:
  "demo_context = demo_outcome_context (\<lambda>t url. None) (\<lambda>t params. None)"
  "failing_store_context =
     demo_outcome_context (\<lambda>t url. Some (Error ''SQLITE_BUSY'')) (\<lambda>t params. None)"
  "failing_merge_context =
     demo_outcome_context (\<lambda>t url. None) (\<lambda>t params. Some (Error ''405 Not Allowed''))"
  by (simp_all add: demo_outcome_context_def demo_context_def failing_store_context_def
      failing_merge_context_def)

theorem merge_when_ready_witness:
  "\<exists>checks. list_all (\<lambda>e. quiet e \<or> e = Wait 60000) checks \<and>
     trace (processPullRequest demo_context demo_url demo_world) =
       checks @ [StoreDelete demo_url, PullsMerge demo_params] \<and>
     tracked (processPullRequest demo_context demo_url demo_world) = []"
proof -
  let ?c = "demo_outcome_context (\<lambda>t url. None) (\<lambda>t params. None)"
  from merge_when_ready [OF demo_parse demo_get demo_open demo_timeline demo_due_or_invalid
      demo_approved demo_enough demo_green, of "\<lambda>t url. None" "\<lambda>t params. None"]
  obtain checks where "list_all (\<lambda>e. quiet e \<or> e = Wait 60000) checks"
    "trace (processPullRequest ?c demo_url demo_world) =
       trace demo_world @ checks @ StoreDelete demo_url #
         (case sqlite_pullRequest_delete ?c (Suc (clock (demo_at 9))) demo_url of
            Some e \<Rightarrow> [Log LogError (CouldNotProcess demo_url e)]
          | None \<Rightarrow>
              PullsMerge demo_params #
              (case octokit_pulls_merge ?c (Suc (Suc (clock (demo_at 9)))) demo_params of
                 Some e \<Rightarrow> [Log LogError (CouldNotProcess demo_url e)]
               | None \<Rightarrow> []))"
    "tracked (processPullRequest ?c demo_url demo_world) =
       (case sqlite_pullRequest_delete ?c (Suc (clock (demo_at 9))) demo_url of
          Some e \<Rightarrow> tracked demo_world
        | None \<Rightarrow> removeAll demo_url (tracked demo_world))"
    by blast
  then have "list_all (\<lambda>e. quiet e \<or> e = Wait 60000) checks \<and>
     trace (processPullRequest ?c demo_url demo_world) =
       checks @ [StoreDelete demo_url, PullsMerge demo_params] \<and>
     tracked (processPullRequest ?c demo_url demo_world) = []"
    by (simp add: demo_outcome_context_def demo_world_def)
  then show ?thesis
    unfolding demo_context_outcome(1) [symmetric] by blast
qed

text \<open>
  C1 as stated fails when the store cannot delete: the pull request of the example is
  open, past due, approved twice of two and green, the orchestrator announces the merge
  and asks the store to delete the URL, the deletion throws, and the merge API is not
  invoked; the URL stays tracked.
\<close>

theorem merge_when_ready_counterexample:
  "fst (getApprovalCount failing_store_context demo_params (demo_at 4)) = Returned 2 \<and>
   fst (isCiGreen failing_store_context ''abc123'' demo_params (demo_at 5)) = Returned (Some True) \<and>
   trace (processPullRequest failing_store_context demo_url demo_world) =
     demo_checks @
     [Log LogInfo (WillMerge demo_url ''1000'' (Some 5000)),
      StoreDelete demo_url,
      Log LogError (CouldNotProcess demo_url (Error ''SQLITE_BUSY''))] \<and>
   tracked (processPullRequest failing_store_context demo_url demo_world) = [demo_url]"
proof -
  let ?c = "demo_outcome_context (\<lambda>t url. Some (Error ''SQLITE_BUSY'')) (\<lambda>t params. None)"
  have 1: "fst (getApprovalCount ?c demo_params (demo_at 4)) = Returned 2"
    by (simp add: demo_approvals)
  have 2: "fst (isCiGreen ?c ''abc123'' demo_params (demo_at 5)) = Returned (Some True)"
    using demo_green [of "\<lambda>t url. Some (Error ''SQLITE_BUSY'')" "\<lambda>t params. None"]
    by (simp add: demo_details_def)
  have "processPullRequest ?c demo_url demo_world =
          (case mergePullRequest ?c demo_url demo_params
                  (logger LogInfo (WillMerge demo_url ''1000'' (Some 5000)) (demo_at 9)) of
             (Returned u, w') \<Rightarrow> w'
           | (Thrown e, w') \<Rightarrow> logger LogError (CouldNotProcess demo_url e) w')"
    by (simp only: processPullRequest_def
        tryBlock_ready [OF demo_parse demo_get demo_open demo_timeline demo_due_or_invalid
          demo_approved demo_enough demo_green]
        demo_last demo_req demo_timeout)
  then have 3: "trace (processPullRequest ?c demo_url demo_world) =
     demo_checks @
     [Log LogInfo (WillMerge demo_url ''1000'' (Some 5000)),
      StoreDelete demo_url,
      Log LogError (CouldNotProcess demo_url (Error ''SQLITE_BUSY''))] \<and>
   tracked (processPullRequest ?c demo_url demo_world) = [demo_url]"
    by (simp add: mergePullRequest_result demo_announce logger_def emit_def
        clock_def demo_outcome_context_def)
  from 1 2 3 show ?thesis
    unfolding demo_context_outcome(2) [symmetric] by blast
qed

subsection \<open>A merge that fails after the deletion\<close>

text \<open>
  C10. When, for a pull request that is ready, the store's deletion succeeds and the merge
  request then fails, the turn ends with the deletion, the merge request and the log entry
  of the error, made by the handler of the turn: nothing is put back into the store, the
  URL is no longer tracked, and the loop goes on with the next tracked pull request.
\<close>

theorem merge_failure_not_rolled_back:
  assumes "parseGitHubUrl (platform ctx) pullRequest = Returned gitHubUrl"
    and "getPullRequestDetails ctx gitHubUrl w = (Returned d, w1)"
    and "\<not> merged d" and "\<not> truthy (closed_at d)"
    and "request (TimelineEvents gitHubUrl) (\<lambda>t. getAllTimelineEvents ctx t gitHubUrl)
           (logger LogDebug (ProcessingPullRequest pullRequest) w1) = (Returned activity, w2)"
    and "lastActivityDate (platform ctx) activity = None \<or>
         fst (isPastOffset ctx (lastActivityDate (platform ctx) activity)
                (mergeTimeout (getMergeTimeoutAndApprovalRequiredCount ctx (author_association d)))
                (logger LogDebug
                   (RequirementsFor (author_association d)
                      (getMergeTimeoutAndApprovalRequiredCount ctx (author_association d))
                      (lastActivityDate (platform ctx) activity)) w2)) = Returned True"
    and "getApprovalCount ctx gitHubUrl
           (logger LogDebug
              (RequirementsFor (author_association d)
                 (getMergeTimeoutAndApprovalRequiredCount ctx (author_association d))
                 (lastActivityDate (platform ctx) activity)) w2) = (Returned n, w4)"
    and "requiredApprovalCount (getMergeTimeoutAndApprovalRequiredCount ctx (author_association d))
           \<le> int n"
    and "isCiGreen ctx (head_sha d) gitHubUrl w4 = (Returned (Some True), w5)"
    and "sqlite_pullRequest_delete ctx (Suc (clock w5)) pullRequest = None"
    and "octokit_pulls_merge ctx (Suc (Suc (clock w5))) gitHubUrl = Some e"
  shows "(\<exists>before. trace (processPullRequest ctx pullRequest w) =
            before @ [StoreDelete pullRequest, PullsMerge gitHubUrl,
                      Log LogError (CouldNotProcess pullRequest e)]) \<and>
         tracked (processPullRequest ctx pullRequest w) = removeAll pullRequest (tracked w) \<and>
         pullRequest \<notin> set (tracked (processPullRequest ctx pullRequest w)) \<and>
         forPullRequests ctx (pullRequest # others) w =
           forPullRequests ctx others (processPullRequest ctx pullRequest w)"
proof -
  let ?req = "getMergeTimeoutAndApprovalRequiredCount ctx (author_association d)"
  let ?last = "lastActivityDate (platform ctx) activity"
  let ?w6 = "logger LogInfo (WillMerge pullRequest (mergeTimeout ?req) ?last) w5"
  from ready_checks [OF assms(2) assms(5) assms(7) assms(9)]
  have "extends (\<lambda>e. quiet e \<or> e = Wait 60000) w ?w6" .
  then have c: "tracked ?w6 = tracked w"
    by (simp add: extends_iff)
  have k: "clock ?w6 = Suc (clock w5)"
    by (simp add: clock_def logger_def emit_def)
  have "processPullRequest ctx pullRequest w =
          (case mergePullRequest ctx pullRequest gitHubUrl ?w6 of
             (Returned u, w') \<Rightarrow> w'
           | (Thrown e, w') \<Rightarrow> logger LogError (CouldNotProcess pullRequest e) w')"
    by (simp only: processPullRequest_def tryBlock_ready [OF assms(1-9)])
  then have p: "processPullRequest ctx pullRequest w =
      logger LogError (CouldNotProcess pullRequest e)
        (emit (PullsMerge gitHubUrl)
           (emit (StoreDelete pullRequest)
              (?w6\<lparr>tracked := removeAll pullRequest (tracked ?w6)\<rparr>)))"
    using assms(10,11) k by (simp add: mergePullRequest_result)
  have 1: "trace (processPullRequest ctx pullRequest w) =
             trace ?w6 @ [StoreDelete pullRequest, PullsMerge gitHubUrl,
                          Log LogError (CouldNotProcess pullRequest e)]"
    unfolding p by (simp add: logger_def emit_def)
  have 2: "tracked (processPullRequest ctx pullRequest w) = removeAll pullRequest (tracked w)"
    unfolding p using c by (simp add: logger_def emit_def)
  from 1 2 show ?thesis by auto
qed

theorem merge_failure_not_rolled_back_witness:
  "(\<exists>before. trace (processPullRequest failing_merge_context demo_url demo_world) =
      before @ [StoreDelete demo_url, PullsMerge demo_params,
                Log LogError (CouldNotProcess demo_url (Error ''405 Not Allowed''))]) \<and>
   tracked (processPullRequest failing_merge_context demo_url demo_world) = [] \<and>
   forPullRequests failing_merge_context [demo_url, ''no url''] demo_world =
     logger LogError (CouldNotProcess ''no url'' (TypeError ''Invalid URL''))
       (processPullRequest failing_merge_context demo_url demo_world)"
proof -
  let ?c = "demo_outcome_context (\<lambda>t url. None) (\<lambda>t params. Some (Error ''405 Not Allowed''))"
  have d: "sqlite_pullRequest_delete ?c (Suc (clock (demo_at 9))) demo_url = None"
    by (simp add: demo_outcome_context_def)
  have m: "octokit_pulls_merge ?c (Suc (Suc (clock (demo_at 9)))) demo_params =
             Some (Error ''405 Not Allowed'')"
    by (simp add: demo_outcome_context_def)
  note t = merge_failure_not_rolled_back [OF demo_parse demo_get demo_open demo_timeline
      demo_due_or_invalid demo_approved demo_enough demo_green d m, of "[''no url'']"]
  have n: "processPullRequest ?c ''no url'' w =
             logger LogError (CouldNotProcess ''no url'' (TypeError ''Invalid URL'')) w" for w
    by (simp add: processPullRequest_def tryBlock_def await_def parseGitHubUrl_def
        demo_outcome_context_def demo_context_def demo_platform_def demo_pathname_def)
  from t have "(\<exists>before. trace (processPullRequest ?c demo_url demo_world) =
      before @ [StoreDelete demo_url, PullsMerge demo_params,
                Log LogError (CouldNotProcess demo_url (Error ''405 Not Allowed''))]) \<and>
   tracked (processPullRequest ?c demo_url demo_world) = [] \<and>
   forPullRequests ?c [demo_url, ''no url''] demo_world =
     logger LogError (CouldNotProcess ''no url'' (TypeError ''Invalid URL''))
       (processPullRequest ?c demo_url demo_world)"
    by (simp add: n demo_world_def)
  then show ?thesis
    unfolding demo_context_outcome(3) [symmetric] .
qed

subsection \<open>A pull request that is merged or closed\<close>

lemma removeClosed_result:
  "removeClosed ctx pullRequest w =
     (case sqlite_pullRequest_delete ctx (Suc (clock w)) pullRequest of
        None \<Rightarrow>
          \<lparr>tracked = removeAll pullRequest (tracked w),
           trace = trace w @ [Log LogInfo (AlreadyMergedOrClosed pullRequest),
                              StoreDelete pullRequest]\<rparr>
      | Some e \<Rightarrow>
          \<lparr>tracked = tracked w,
           trace = trace w @ [Log LogInfo (AlreadyMergedOrClosed pullRequest),
                              StoreDelete pullRequest,
                              Log LogError (FailedToDelete pullRequest e)]\<rparr>)"
  by (simp add: removeClosed_def pullRequest_delete_def logger_def emit_def clock_def
      split: option.splits)

lemma processPullRequest_closed:
  assumes "parseGitHubUrl (platform ctx) pullRequest = Returned gitHubUrl"
    and "octokit_pulls_get ctx (clock w) gitHubUrl = Inr d"
    and "merged d \<or> truthy (closed_at d)"
  shows "processPullRequest ctx pullRequest w =
           (case sqlite_pullRequest_delete ctx (Suc (Suc (Suc (clock w)))) pullRequest of
              None \<Rightarrow>
                \<lparr>tracked = removeAll pullRequest (tracked w),
                 trace = trace w @ [PullsGet gitHubUrl,
                                    Log LogDebug (ProcessingPullRequest pullRequest),
                                    Log LogInfo (AlreadyMergedOrClosed pullRequest),
                                    StoreDelete pullRequest]\<rparr>
            | Some e \<Rightarrow>
                \<lparr>tracked = tracked w,
                 trace = trace w @ [PullsGet gitHubUrl,
                                    Log LogDebug (ProcessingPullRequest pullRequest),
                                    Log LogInfo (AlreadyMergedOrClosed pullRequest),
                                    StoreDelete pullRequest,
                                    Log LogError (FailedToDelete pullRequest e)]\<rparr>)"
proof -
  have g: "getPullRequestDetails ctx gitHubUrl w = (Returned d, emit (PullsGet gitHubUrl) w)"
    using assms(2) by (simp add: getPullRequestDetails_def request_def)
  show ?thesis
    by (simp add: processPullRequest_def tryBlock_closed [OF assms(1) g assms(3)]
        removeClosed_result logger_def emit_def clock_def split: option.splits)
qed

text \<open>
  C9, as amended. For a tracked pull request whose fetched details show it merged, or
  hold a \<^verbatim>\<open>closed_at\<close> timestamp, the turn of the loop fetches the details, logs, asks the
  store once to delete the URL and ends: it sends no merge request, in whatever world it
  runs, so running the orchestrator again on such a pull request never attempts a second
  merge. When the deletion succeeds, the URL is no longer tracked; when it fails, the
  failure is logged and the tracked list is as before, so the pull request stays tracked.
\<close>

theorem merged_or_closed_untracked:
  assumes "parseGitHubUrl (platform ctx) pullRequest = Returned gitHubUrl"
    and "octokit_pulls_get ctx (clock w) gitHubUrl = Inr d"
    and "merged d \<or> truthy (closed_at d)"
  shows "(\<exists>logged. trace (processPullRequest ctx pullRequest w) =
            trace w @ [PullsGet gitHubUrl,
                       Log LogDebug (ProcessingPullRequest pullRequest),
                       Log LogInfo (AlreadyMergedOrClosed pullRequest),
                       StoreDelete pullRequest] @ logged \<and>
            logged = (case sqlite_pullRequest_delete ctx (Suc (Suc (Suc (clock w)))) pullRequest of
                        None \<Rightarrow> []
                      | Some e \<Rightarrow> [Log LogError (FailedToDelete pullRequest e)])) \<and>
         filter isMerge (added w (processPullRequest ctx pullRequest w)) = [] \<and>
         tracked (processPullRequest ctx pullRequest w) =
           (case sqlite_pullRequest_delete ctx (Suc (Suc (Suc (clock w)))) pullRequest of
              None \<Rightarrow> removeAll pullRequest (tracked w)
            | Some e \<Rightarrow> tracked w) \<and>
         (sqlite_pullRequest_delete ctx (Suc (Suc (Suc (clock w)))) pullRequest = None \<longrightarrow>
            pullRequest \<notin> set (tracked (processPullRequest ctx pullRequest w)))"
  by (simp add: processPullRequest_closed [OF assms] added_def isMerge_def split: option.splits)

lemma closed_demo:
  "parseGitHubUrl (platform merged_context) demo_url = Returned demo_params"
  "parseGitHubUrl (platform closed_context) demo_url = Returned demo_params"
  "octokit_pulls_get merged_context (clock demo_world) demo_params =
     Inr \<lparr>merged = True, closed_at = Some ''2024-05-01T00:00:00Z'',
          author_association = ''MEMBER'', head_sha = ''abc123''\<rparr>"
  "octokit_pulls_get closed_context (clock demo_world) demo_params =
     Inr \<lparr>merged = False, closed_at = Some ''2024-05-01T00:00:00Z'',
          author_association = ''MEMBER'', head_sha = ''abc123''\<rparr>"
  "sqlite_pullRequest_delete merged_context t demo_url = None"
  "sqlite_pullRequest_delete closed_context t demo_url = Some (Error ''SQLITE_BUSY'')"
  by (simp_all add: parseGitHubUrl_def merged_context_def closed_context_def demo_defs)

theorem merged_or_closed_untracked_witness:
  "trace (processPullRequest merged_context demo_url demo_world) =
     [PullsGet demo_params,
      Log LogDebug (ProcessingPullRequest demo_url),
      Log LogInfo (AlreadyMergedOrClosed demo_url),
      StoreDelete demo_url] \<and>
   tracked (processPullRequest merged_context demo_url demo_world) = [] \<and>
   filter isMerge (added demo_world (processPullRequest closed_context demo_url demo_world)) = [] \<and>
   tracked (processPullRequest closed_context demo_url demo_world) = tracked demo_world"
  using merged_or_closed_untracked [OF closed_demo(1) closed_demo(3)]
    merged_or_closed_untracked [OF closed_demo(2) closed_demo(4)]
  by (simp add: closed_demo(5,6) truthy_def demo_world_def)

text \<open>
  C9 as stated fails when the store cannot delete: the closed pull request of the example
  is not removed from the tracked list; the orchestrator logs the failure and goes on.
\<close>

theorem merged_or_closed_untracked_counterexample:
  "trace (processPullRequest closed_context demo_url demo_world) =
     [PullsGet demo_params,
      Log LogDebug (ProcessingPullRequest demo_url),
      Log LogInfo (AlreadyMergedOrClosed demo_url),
      StoreDelete demo_url,
      Log LogError (FailedToDelete demo_url (Error ''SQLITE_BUSY''))] \<and>
   tracked (processPullRequest closed_context demo_url demo_world) = [demo_url]"
  using processPullRequest_closed [OF closed_demo(2) closed_demo(4)]
  by (simp add: closed_demo(6) truthy_def demo_world_def)

subsection \<open>A pull request without a dated activity\<close>

lemma firstTruthy_field:
  "firstTruthy vs = [] \<or> firstTruthy vs \<in> set (concat (map (\<lambda>v. case v of None \<Rightarrow> [] | Some s \<Rightarrow> [s]) vs))"
  by (induction vs) (auto simp: truthy_def split: option.splits)

lemma eventTimestamp_field:
  "eventTimestamp e = [] \<or> eventTimestamp e \<in> set (timestampFields e)"
  unfolding eventTimestamp_def timestampFields_def by (rule firstTruthy_field)

lemma lastActivityDate_invalid:
  assumes "Date_parse pf [] = None"
    and "\<forall>event \<in> set activity. \<forall>s \<in> set (timestampFields event). Date_parse pf s = None"
  shows "lastActivityDate pf activity = None"
proof -
  have "new_Date pf (eventTimestamp event) = None" if "event \<in> set activity" for event
    using eventTimestamp_field [of event] assms that by (auto simp: new_Date_def)
  then have "eventDates pf activity = []"
    by (auto simp: eventDates_def List.map_filter_def filter_empty_conv)
  then show ?thesis
    by (simp add: lastActivityDate_def Math_max_def)
qed

lemma getApprovalCount_trace:
  "\<exists>es. trace (snd (getApprovalCount ctx params w)) = trace w @ ListReviews params # es"
  by (simp add: getApprovalCount_def request_def logger_def emit_def split: sum.splits)

lemma isCiGreen_trace:
  "\<exists>es. trace (snd (isCiGreen ctx sha params w)) =
     trace w @ ListSuitesForRef (owner params) (repo params) sha # es"
proof (cases "octokit_checks_listSuitesForRef ctx (clock w) (owner params) (repo params) sha")
  case (Inl e)
  then show ?thesis
    by (simp add: isCiGreen_def request_def logger_def emit_def)
next
  case (Inr checkSuites)
  from actualRetry_polled [of "ciAttempt ctx params checkSuites" ciUntil 60000 99
      "emit (ListSuitesForRef (owner params) (repo params) sha) w",
      OF ciAttempt_extends ciUntil_extends]
  obtain es where
    "trace (snd (actualRetry (ciAttempt ctx params checkSuites) ciUntil 60000 99
                   (emit (ListSuitesForRef (owner params) (repo params) sha) w))) =
       trace (emit (ListSuitesForRef (owner params) (repo params) sha) w) @ es"
    unfolding polled_def by blast
  then show ?thesis
    by (simp add: isCiGreen_fetched [OF Inr] emit_def)
qed

lemma mergePullRequest_trace:
  "\<exists>es. trace (snd (mergePullRequest ctx pullRequest params w)) = trace w @ es"
  by (simp add: mergePullRequest_result emit_def split: option.splits)

lemma mergeWhenDue_trace:
  assumes "getApprovalCount ctx gitHubUrl w = (Returned n, w4)"
  shows "\<exists>es. trace (snd (mergeWhenDue ctx pullRequest gitHubUrl d requirements lastActivity w)) =
           trace w4 @ es \<and>
           (requiredApprovalCount requirements \<le> int n \<longrightarrow>
              (\<exists>others. es = ListSuitesForRef (owner gitHubUrl) (repo gitHubUrl) (head_sha d) #
                              others))"
proof (cases "requiredApprovalCount requirements \<le> int n")
  case False
  with assms show ?thesis
    by (simp add: mergeWhenDue_def await_def logger_def emit_def)
next
  case True
  obtain r w5 where g: "isCiGreen ctx (head_sha d) gitHubUrl w4 = (r, w5)"
    by (cases "isCiGreen ctx (head_sha d) gitHubUrl w4")
  with isCiGreen_trace [of ctx "head_sha d" gitHubUrl w4] obtain es where
    es: "trace w5 = trace w4 @ ListSuitesForRef (owner gitHubUrl) (repo gitHubUrl) (head_sha d) # es"
    by auto
  show ?thesis
  proof (cases r)
    case (Thrown e)
    with assms True g es show ?thesis
      by (simp add: mergeWhenDue_def await_def)
  next
    case (Returned green)
    show ?thesis
    proof (cases "green = Some True")
      case False
      with assms True g es Returned show ?thesis
        by (simp add: mergeWhenDue_def await_def logger_def emit_def)
    next
      case green: True
      let ?w6 = "logger LogInfo (WillMerge pullRequest (mergeTimeout requirements) lastActivity) w5"
      from mergePullRequest_trace [of ctx pullRequest gitHubUrl ?w6] obtain es' where
        "trace (snd (mergePullRequest ctx pullRequest gitHubUrl ?w6)) = trace ?w6 @ es'"
        by blast
      with assms True g es Returned green show ?thesis
        by (simp add: mergeWhenDue_def await_def logger_def emit_def)
    qed
  qed
qed

lemma processPullRequest_trace:
  "\<exists>es. trace (processPullRequest ctx pullRequest w) = trace (snd (tryBlock ctx pullRequest w)) @ es"
  by (cases "tryBlock ctx pullRequest w"; cases "fst (tryBlock ctx pullRequest w)")
     (simp_all add: processPullRequest_def logger_def emit_def)

text \<open>
  C7. When the timeline of a tracked, open pull request is fetched and no event holds a
  string that parses as a date in \<^verbatim>\<open>created_at\<close>, \<^verbatim>\<open>updated_at\<close>, \<^verbatim>\<open>timestamp\<close> or
  \<^verbatim>\<open>commented_at\<close> (the platform's parser rejecting the empty string as well), the last
  activity date is invalid and the turn of the loop goes on exactly as for a pull request
  that is past due, without evaluating \<open>isPastOffset\<close>: its next effect is the request for
  the reviews, and when the approvals suffice, the next after the approval counter is the
  CI gate's request for the check suites.
\<close>

theorem undated_treated_as_due:
  assumes "parseGitHubUrl (platform ctx) pullRequest = Returned gitHubUrl"
    and "getPullRequestDetails ctx gitHubUrl w = (Returned d, w1)"
    and "\<not> merged d" and "\<not> truthy (closed_at d)"
    and "request (TimelineEvents gitHubUrl) (\<lambda>t. getAllTimelineEvents ctx t gitHubUrl)
           (logger LogDebug (ProcessingPullRequest pullRequest) w1) = (Returned activity, w2)"
    and "Date_parse (platform ctx) [] = None"
    and "\<forall>event \<in> set activity. \<forall>s \<in> set (timestampFields event).
           Date_parse (platform ctx) s = None"
    and "w3 = logger LogDebug
                (RequirementsFor (author_association d)
                   (getMergeTimeoutAndApprovalRequiredCount ctx (author_association d)) None) w2"
  shows "lastActivityDate (platform ctx) activity = None \<and>
         tryBlock ctx pullRequest w =
           mergeWhenDue ctx pullRequest gitHubUrl d
             (getMergeTimeoutAndApprovalRequiredCount ctx (author_association d)) None w3 \<and>
         (\<exists>others. trace (processPullRequest ctx pullRequest w) =
                     trace w3 @ ListReviews gitHubUrl # others) \<and>
         (\<forall>n w4. getApprovalCount ctx gitHubUrl w3 = (Returned n, w4) \<and>
                 requiredApprovalCount
                   (getMergeTimeoutAndApprovalRequiredCount ctx (author_association d)) \<le> int n \<longrightarrow>
                 (\<exists>others. trace (processPullRequest ctx pullRequest w) =
                    trace w4 @
                    ListSuitesForRef (owner gitHubUrl) (repo gitHubUrl) (head_sha d) # others))"
proof -
  let ?req = "getMergeTimeoutAndApprovalRequiredCount ctx (author_association d)"
  have last: "lastActivityDate (platform ctx) activity = None"
    using assms(6,7) by (rule lastActivityDate_invalid)
  have t: "tryBlock ctx pullRequest w = mergeWhenDue ctx pullRequest gitHubUrl d ?req None w3"
    using checkOpen_due [OF assms(1) assms(5), of d] last
    by (simp add: tryBlock_open [OF assms(1-4)] assms(8))
  obtain es0 where es0: "trace (processPullRequest ctx pullRequest w) =
      trace (snd (mergeWhenDue ctx pullRequest gitHubUrl d ?req None w3)) @ es0"
    using processPullRequest_trace [of ctx pullRequest w] unfolding t by blast
  obtain r w4 where a: "getApprovalCount ctx gitHubUrl w3 = (r, w4)"
    by (cases "getApprovalCount ctx gitHubUrl w3")
  from getApprovalCount_returns [of ctx gitHubUrl w3] a obtain n where r: "r = Returned n"
    by auto
  from getApprovalCount_trace [of ctx gitHubUrl w3] a obtain es1 where
    es1: "trace w4 = trace w3 @ ListReviews gitHubUrl # es1"
    by auto
  from mergeWhenDue_trace [OF a [unfolded r], of pullRequest d ?req None] obtain es2 where
    es2: "trace (snd (mergeWhenDue ctx pullRequest gitHubUrl d ?req None w3)) = trace w4 @ es2"
      "requiredApprovalCount ?req \<le> int n \<longrightarrow>
         (\<exists>others. es2 = ListSuitesForRef (owner gitHubUrl) (repo gitHubUrl) (head_sha d) # others)"
    by blast
  have 3: "\<exists>others. trace (processPullRequest ctx pullRequest w) =
                     trace w3 @ ListReviews gitHubUrl # others"
    using es0 es1 es2(1) by simp
  have 4: "\<exists>others. trace (processPullRequest ctx pullRequest w) =
             trace w4' @ ListSuitesForRef (owner gitHubUrl) (repo gitHubUrl) (head_sha d) # others"
    if "getApprovalCount ctx gitHubUrl w3 = (Returned n', w4')"
      and "requiredApprovalCount ?req \<le> int n'" for n' w4'
  proof -
    from that(1) a r have "n' = n" "w4' = w4" by simp_all
    with that(2) es2 es0 show ?thesis by auto
  qed
  from last t 3 4 show ?thesis by blast
qed

theorem undated_treated_as_due_witness:
  "\<exists>others. trace (processPullRequest undated_context demo_url demo_world) =
     [PullsGet demo_params,
      Log LogDebug (ProcessingPullRequest demo_url),
      TimelineEvents demo_params,
      Log LogDebug (RequirementsFor ''MEMBER'' demo_requirements None),
      ListReviews demo_params,
      ListSuitesForRef ''acme'' ''widgets'' ''abc123''] @ others"
proof -
  let ?c = undated_context
  let ?w3 = "\<lparr>tracked = [demo_url],
              trace = [PullsGet demo_params,
                       Log LogDebug (ProcessingPullRequest demo_url),
                       TimelineEvents demo_params,
                       Log LogDebug (RequirementsFor ''MEMBER'' demo_requirements None)]\<rparr>"
  let ?w4 = "\<lparr>tracked = [demo_url],
              trace = [PullsGet demo_params,
                       Log LogDebug (ProcessingPullRequest demo_url),
                       TimelineEvents demo_params,
                       Log LogDebug (RequirementsFor ''MEMBER'' demo_requirements None),
                       ListReviews demo_params]\<rparr>"
  have p: "parseGitHubUrl (platform ?c) demo_url = Returned demo_params"
    by (simp add: parseGitHubUrl_def undated_context_def demo_defs)
  have g: "getPullRequestDetails ?c demo_params demo_world = (Returned demo_details, demo_at 1)"
    by (simp add: getPullRequestDetails_def request_def emit_def clock_def undated_context_def
        demo_defs)
  have t: "request (TimelineEvents demo_params) (\<lambda>t. getAllTimelineEvents ?c t demo_params)
             (logger LogDebug (ProcessingPullRequest demo_url) (demo_at 1)) =
             (Returned undated_activity, demo_at 3)"
    by (simp add: request_def emit_def logger_def clock_def undated_context_def demo_defs)
  have e: "Date_parse (platform ?c) [] = None"
    by (simp add: undated_context_def demo_defs)
  have u: "\<forall>event \<in> set undated_activity. \<forall>s \<in> set (timestampFields event).
             Date_parse (platform ?c) s = None"
    by (simp add: undated_activity_def timestampFields_def undated_context_def demo_defs)
  have r: "getMergeTimeoutAndApprovalRequiredCount ?c (author_association demo_details) =
             demo_requirements"
    by (simp add: getMergeTimeoutAndApprovalRequiredCount_def undated_context_def demo_defs)
  have w: "?w3 = logger LogDebug
                   (RequirementsFor (author_association demo_details)
                      (getMergeTimeoutAndApprovalRequiredCount ?c (author_association demo_details))
                      None) (demo_at 3)"
    unfolding r by (simp add: logger_def emit_def demo_defs)
  have a: "getApprovalCount ?c demo_params ?w3 = (Returned 2, ?w4)"
    by (simp add: getApprovalCount_def request_def emit_def clock_def undated_context_def
        demo_context_def)
  have n: "requiredApprovalCount
             (getMergeTimeoutAndApprovalRequiredCount ?c (author_association demo_details)) \<le> int 2"
    unfolding r by (simp add: demo_requirements_def)
  from undated_treated_as_due [OF p g demo_open t e u w] a n
  have "\<exists>others. trace (processPullRequest ?c demo_url demo_world) =
          trace ?w4 @
          ListSuitesForRef (owner demo_params) (repo demo_params) (head_sha demo_details) # others"
    by blast
  then show ?thesis
    by (simp add: demo_params_def demo_details_def)
qed

end
